theory Spec2Isabelle
  imports Complex_Main "HOL-Library.Sublist"
begin

section \<open>JavaScript numbers\<close>

text \<open>
  A JavaScript number is an IEEE 754 binary64 value, and the model of a number is the
  real it denotes. Comparison, \<^verbatim>\<open>Math.min\<close>, \<^verbatim>\<open>Math.max\<close>, \<^verbatim>\<open>Math.abs\<close> and
  \<^verbatim>\<open>Math.round\<close> return their exact result; \<^verbatim>\<open>+\<close>, \<^verbatim>\<open>-\<close>, \<^verbatim>\<open>*\<close> and \<^verbatim>\<open>/\<close> return
  the exact result rounded to the nearest double, a tie going to the double with the
  even significand. Infinities and \<^verbatim>\<open>NaN\<close> are outside the model, and so is overflow:
  the theorems bound the operands so that no exact result reaches \<open>2 ^ 1024\<close>.
\<close>

text \<open>Rounding to the nearest integer, a tie going to the even one.\<close>

definition round_even :: "real \<Rightarrow> int" where
  "round_even y =
     (let f = \<lfloor>y\<rfloor>; d = y - of_int f
      in if d < 1 / 2 then f else if 1 / 2 < d then f + 1 else if even f then f else f + 1)"

text \<open>
  The distance between the doubles around \<open>x\<close>: \<open>2 ^ (e - 52)\<close> for
  \<open>2 ^ e \<le> \<bar>x\<bar> < 2 ^ (e + 1)\<close>, and \<open>2 ^ (- 1074)\<close> in the subnormal range.
\<close>

definition quantum :: "real \<Rightarrow> real" where
  "quantum x = 2 powr of_int (max (\<lfloor>log 2 \<bar>x\<bar>\<rfloor> - 52) (- 1074))"

text \<open>The double nearest to a real: the result of an arithmetic operation.\<close>

definition binary64 :: "real \<Rightarrow> real" where
  "binary64 x = (if x = 0 then 0 else of_int (round_even (x / quantum x)) * quantum x)"

text \<open>
  \<^verbatim>\<open>Math.round\<close> rounds to the nearest integer, a tie going up: it is \<open>\<lfloor>x + 1/2\<rfloor>\<close>,
  and the result is a double whenever \<open>x\<close> is one.
\<close>

definition math_round :: "real \<Rightarrow> int" where
  "math_round x = \<lfloor>x + 1 / 2\<rfloor>"

section \<open>Coordinate transform engine (PDFSanitizerApp1.jsx)\<close>

text \<open>
  A pixel rectangle and a point rectangle are both the object \<^verbatim>\<open>{x1, y1, x2, y2}\<close>; a
  normalized rectangle is \<^verbatim>\<open>{x1n, y1n, x2n, y2n}\<close>.
\<close>

record rect =
  x1 :: real
  y1 :: real
  x2 :: real
  y2 :: real

record normRect =
  x1n :: real
  y1n :: real
  x2n :: real
  y2n :: real

text \<open>
  \<^verbatim>\<open>function normalizeRect(pxRect, w, h)\<close>, lines 72-82, over the reals: the clamped
  and ordered coordinates and their exact quotients by the surface size. Its only
  caller returns before the call when \<^verbatim>\<open>w\<close> or \<^verbatim>\<open>h\<close> is zero, so the division is by
  a non-zero number wherever the program evaluates it.
\<close>

definition normalizeRect :: "rect \<Rightarrow> real \<Rightarrow> real \<Rightarrow> normRect" where
  "normalizeRect pxRect w h =
     (let cx1 = max 0 (min (x1 pxRect) w);
          cx2 = max 0 (min (x2 pxRect) w);
          cy1 = max 0 (min (y1 pxRect) h);
          cy2 = max 0 (min (y2 pxRect) h);
          left = min cx1 cx2;
          right = max cx1 cx2;
          top = min cy1 cy2;
          bottom = max cy1 cy2
      in \<lparr>x1n = left / w, y1n = top / h, x2n = right / w, y2n = bottom / h\<rparr>)"

text \<open>
  The same function as the program evaluates it, lines 72-82: the clamping and the
  ordering are exact, and each of the four divisions of line 81 returns the double
  nearest to the quotient.
\<close>

definition normalizeRect64 :: "rect \<Rightarrow> real \<Rightarrow> real \<Rightarrow> normRect" where
  "normalizeRect64 pxRect w h =
     (let cx1 = max 0 (min (x1 pxRect) w);
          cx2 = max 0 (min (x2 pxRect) w);
          cy1 = max 0 (min (y1 pxRect) h);
          cy2 = max 0 (min (y2 pxRect) h);
          left = min cx1 cx2;
          right = max cx1 cx2;
          top = min cy1 cy2;
          bottom = max cy1 cy2
      in \<lparr>x1n = binary64 (left / w), y1n = binary64 (top / h),
          x2n = binary64 (right / w), y2n = binary64 (bottom / h)\<rparr>)"

text \<open>\<^verbatim>\<open>function denormalizeRect(nr, w, h)\<close>, lines 85-89: four rounded products.\<close>

definition denormalizeRect :: "normRect \<Rightarrow> real \<Rightarrow> real \<Rightarrow> rect" where
  "denormalizeRect nr w h =
     \<lparr>x1 = binary64 (x1n nr * w), y1 = binary64 (y1n nr * h),
      x2 = binary64 (x2n nr * w), y2 = binary64 (y2n nr * h)\<rparr>"

text \<open>\<^verbatim>\<open>function normRectToPdfPoints(nr, pageWpts, pageHpts)\<close>, lines 92-99.\<close>

definition normRectToPdfPoints :: "normRect \<Rightarrow> real \<Rightarrow> real \<Rightarrow> rect" where
  "normRectToPdfPoints nr pageWpts pageHpts =
     \<lparr>x1 = binary64 (x1n nr * pageWpts), y1 = binary64 (y1n nr * pageHpts),
      x2 = binary64 (x2n nr * pageWpts), y2 = binary64 (y2n nr * pageHpts)\<rparr>"

text \<open>
  \<^verbatim>\<open>const fmt = (n) => Math.round(n * 100) / 100\<close>, line 21: the product is rounded to
  a double, \<^verbatim>\<open>Math.round\<close> takes the nearest integer, and the quotient is rounded to a
  double again.
\<close>

definition fmt :: "real \<Rightarrow> real" where
  "fmt n = binary64 (of_int (math_round (binary64 (n * 100))) / 100)"

section \<open>Annotation store and payload builder of PDFSanitizerApp1.jsx\<close>

text \<open>
  A file handle (\<^verbatim>\<open>File\<close>) is opaque to the program; it is modelled by its name.
  A store entry is \<^verbatim>\<open>{ nr, kind, logoFile }\<close>, line 319; \<^verbatim>\<open>logoFile\<close> is a
  \<^verbatim>\<open>File\<close> or \<^verbatim>\<open>undefined\<close>.
\<close>

type_synonym jsFile = string

record pageRect =
  nr :: normRect
  kind :: string
  logoFile :: "jsFile option"

text \<open>
  What the program reads from a page of the loaded document: the width and height of
  \<^verbatim>\<open>page.getViewport({ scale: 1.0 })\<close> and \<^verbatim>\<open>page.rotate\<close>. The document is the list
  of its pages, page \<open>p\<close> (one-based) being \<open>doc ! (p - 1)\<close>.
\<close>

record pdfPage =
  widthPts :: real
  heightPts :: real
  rotate :: nat

text \<open>
  The component state the handlers read and write (lines 132-153). \<^verbatim>\<open>numPages\<close> is
  always set together with \<^verbatim>\<open>pdfDoc\<close> from \<^verbatim>\<open>doc.numPages\<close> (lines 183-184, 532-533),
  so it is the length of the page list. \<^verbatim>\<open>overlayCanvas\<close> holds the width and height of
  \<^verbatim>\<open>overlayCanvasRef.current\<close>, which are whole numbers, and is \<open>None\<close> while the ref
  is null. \<^verbatim>\<open>pageRects\<close> is the object keyed by page number.
\<close>

record app1 =
  activeFileIdx :: nat
  pdfDoc :: "pdfPage list option"
  pageNumber :: nat
  zoom :: real
  overlayCanvas :: "(real \<times> real) option"
  isDrawing :: bool
  startPos :: "real \<times> real"
  currentPos :: "real \<times> real"
  pageRects :: "nat \<rightharpoonup> pageRect list"

definition numPages :: "app1 \<Rightarrow> nat" where
  "numPages s = (case pdfDoc s of None \<Rightarrow> 0 | Some doc \<Rightarrow> length doc)"

text \<open>\<^verbatim>\<open>pageRects[p] || []\<close>, lines 248, 330, 376 and 468.\<close>

definition rectsOf :: "(nat \<rightharpoonup> pageRect list) \<Rightarrow> nat \<Rightarrow> pageRect list" where
  "rectsOf prs p = (case prs p of None \<Rightarrow> [] | Some arr \<Rightarrow> arr)"

text \<open>
  \<^verbatim>\<open>const rectsForPage = useMemo(() => pageRects[pageNumber] || [], ...)\<close>, line 468:
  the list shown for the active document and page. It does not read \<^verbatim>\<open>activeFileIdx\<close>.
\<close>

definition rectsForPage :: "app1 \<Rightarrow> pageRect list" where
  "rectsForPage s = rectsOf (pageRects s) (pageNumber s)"

text \<open>
  \<^verbatim>\<open>handlePointerDown\<close> and \<^verbatim>\<open>handlePointerMove\<close>, lines 284-301; the argument is
  \<^verbatim>\<open>relPoint(e)\<close>, the pointer position relative to the overlay. Painting
  (\<^verbatim>\<open>drawOverlay\<close>) changes no state and is left out.
\<close>

definition handlePointerDown :: "real \<times> real \<Rightarrow> app1 \<Rightarrow> app1" where
  "handlePointerDown p s =
     (if overlayCanvas s = None then s
      else s\<lparr>isDrawing := True, startPos := p, currentPos := p\<rparr>)"

definition handlePointerMove :: "real \<times> real \<Rightarrow> app1 \<Rightarrow> app1" where
  "handlePointerMove p s = (if \<not> isDrawing s then s else s\<lparr>currentPos := p\<rparr>)"

text \<open>The object \<^verbatim>\<open>{ x1, y1, x2, y2 }\<close> passed to \<^verbatim>\<open>normalizeRect\<close> at line 314.\<close>

definition dragRect :: "app1 \<Rightarrow> rect" where
  "dragRect s = \<lparr>x1 = fst (startPos s), y1 = snd (startPos s),
                 x2 = fst (currentPos s), y2 = snd (currentPos s)\<rparr>"

text \<open>
  \<^verbatim>\<open>handlePointerUp\<close>, lines 303-325. \<^verbatim>\<open>o?.width || 0\<close> is 0 when the overlay is
  missing, and \<^verbatim>\<open>if (!w || !h) return\<close> leaves before \<^verbatim>\<open>normalizeRect\<close> divides.
\<close>

definition handlePointerUp :: "app1 \<Rightarrow> app1" where
  "handlePointerUp s =
     (if \<not> isDrawing s then s
      else
        let s1 = s\<lparr>isDrawing := False\<rparr>;
            w = (case overlayCanvas s1 of None \<Rightarrow> 0 | Some (ow, oh) \<Rightarrow> ow);
            h = (case overlayCanvas s1 of None \<Rightarrow> 0 | Some (ow, oh) \<Rightarrow> oh)
        in if w = 0 \<or> h = 0 then s1
           else
             let r = normalizeRect64 (dragRect s1) w h
             in if x1n r \<noteq> x2n r \<and> y1n r \<noteq> y2n r
                then s1\<lparr>pageRects := (pageRects s1)(pageNumber s1 \<mapsto>
                         rectsOf (pageRects s1) (pageNumber s1)
                           @ [\<lparr>nr = r, kind = ''redact'', logoFile = None\<rparr>])\<rparr>
                else s1)"

text \<open>
  \<^verbatim>\<open>removeRect(idx)\<close>, lines 327-335: \<^verbatim>\<open>arr.splice(idx, 1)\<close> drops the element at
  \<^verbatim>\<open>idx\<close> and nothing when \<^verbatim>\<open>idx\<close> is past the end.
\<close>

definition removeRect :: "nat \<Rightarrow> app1 \<Rightarrow> app1" where
  "removeRect idx s =
     (let arr = rectsOf (pageRects s) (pageNumber s)
      in s\<lparr>pageRects := (pageRects s)(pageNumber s \<mapsto> take idx arr @ drop (Suc idx) arr)\<rparr>)"

text \<open>\<^verbatim>\<open>updateRectKind(idx, kind)\<close>, lines 337-348; \<^verbatim>\<open>if (arr[idx])\<close> holds exactly for
  an index inside the array.\<close>

definition updateRectKind :: "nat \<Rightarrow> string \<Rightarrow> app1 \<Rightarrow> app1" where
  "updateRectKind idx k s =
     (let arr = rectsOf (pageRects s) (pageNumber s);
          arr' = (if idx < length arr
                  then (let willLogo = (k = ''logo'')
                        in arr[idx := (arr ! idx)\<lparr>kind := k,
                              logoFile := (if willLogo then logoFile (arr ! idx) else None)\<rparr>])
                  else arr)
      in s\<lparr>pageRects := (pageRects s)(pageNumber s \<mapsto> arr')\<rparr>)"

text \<open>\<^verbatim>\<open>setRectLogoFile(idx, file)\<close>, lines 350-358; \<^verbatim>\<open>file\<close> is a \<^verbatim>\<open>File\<close> or
  \<^verbatim>\<open>undefined\<close>.\<close>

definition setRectLogoFile :: "nat \<Rightarrow> jsFile option \<Rightarrow> app1 \<Rightarrow> app1" where
  "setRectLogoFile idx f s =
     (let arr = rectsOf (pageRects s) (pageNumber s);
          arr' = (if idx < length arr then arr[idx := (arr ! idx)\<lparr>logoFile := f\<rparr>] else arr)
      in s\<lparr>pageRects := (pageRects s)(pageNumber s \<mapsto> arr')\<rparr>)"

text \<open>\<^verbatim>\<open>clearPageRects\<close>, lines 360-362.\<close>

definition clearPageRects :: "app1 \<Rightarrow> app1" where
  "clearPageRects s = s\<lparr>pageRects := (pageRects s)(pageNumber s \<mapsto> [])\<rparr>"

text \<open>
  The \<^verbatim>\<open>Next\<close> button, line 545: it is disabled without a document and on the last
  page, and its handler is \<^verbatim>\<open>setPageNumber((p) => Math.min(numPages, p + 1))\<close>.
\<close>

definition nextPage :: "app1 \<Rightarrow> app1" where
  "nextPage s =
     (if pdfDoc s = None \<or> numPages s \<le> pageNumber s then s
      else s\<lparr>pageNumber := min (numPages s) (pageNumber s + 1)\<rparr>)"

text \<open>
  The file selector, line 519, followed by the load effect, lines 169-194, for a file
  that loads as the document \<open>doc\<close>: \<^verbatim>\<open>activeFileIdx\<close>, \<^verbatim>\<open>pdfDoc\<close> and \<^verbatim>\<open>numPages\<close>
  are set and \<^verbatim>\<open>pageNumber\<close> becomes 1. Neither touches \<^verbatim>\<open>pageRects\<close>.
\<close>

definition loadFile :: "nat \<Rightarrow> pdfPage list \<Rightarrow> app1 \<Rightarrow> app1" where
  "loadFile idx doc s = s\<lparr>activeFileIdx := idx, pdfDoc := Some doc, pageNumber := 1\<rparr>"

text \<open>
  The objects pushed by \<^verbatim>\<open>buildPayloadAndLogos\<close>, lines 379-392. The emitted
  \<^verbatim>\<open>kind\<close> and the upload's \<^verbatim>\<open>rect_idx\<close> and \<^verbatim>\<open>file\<close> carry a prefix here because
  record fields share one name space.
\<close>

record payloadRect =
  rect_idx :: nat
  page :: nat
  out_kind :: string
  bbox_norm :: "real list"
  bbox_pts :: "real list"
  page_w_pts :: real
  page_h_pts :: real
  rotation :: nat

record logoUpload =
  up_rect_idx :: nat
  field :: string
  up_file :: jsFile

text \<open>The decimal digits of a number, for the template literal \<^verbatim>\<open>`logo_${rect_idx}`\<close>.\<close>

fun digits :: "nat \<Rightarrow> string" where
  "digits n =
     (if n < 10 then [char_of (48 + n)]
      else digits (n div 10) @ [char_of (48 + n mod 10)])"

declare digits.simps [simp del]

text \<open>
  The body of the inner loop \<^verbatim>\<open>for (const r of arr)\<close>, lines 377-394, on the loop
  state \<^verbatim>\<open>(rectangles, logoUploads, rect_idx)\<close>; \<open>pg\<close> is the page fetched for page
  number \<open>p\<close>, with the width and height of its viewport at scale \<open>1.0\<close>.
\<close>

fun rect_loop ::
  "nat \<Rightarrow> pdfPage \<Rightarrow> pageRect list \<Rightarrow> payloadRect list \<times> logoUpload list \<times> nat
     \<Rightarrow> payloadRect list \<times> logoUpload list \<times> nat" where
  "rect_loop p pg [] acc = acc"
| "rect_loop p pg (r # rs) (rectangles, logoUploads, idx) =
     (let pageW = widthPts pg;
          pageH = heightPts pg;
          pts = normRectToPdfPoints (nr r) pageW pageH;
          rectangles' = rectangles @
            [\<lparr>rect_idx = idx, page = p - 1, out_kind = kind r,
              bbox_norm = [x1n (nr r), y1n (nr r), x2n (nr r), y2n (nr r)],
              bbox_pts = [fmt (x1 pts), fmt (y1 pts), fmt (x2 pts), fmt (y2 pts)],
              page_w_pts = fmt pageW, page_h_pts = fmt pageH, rotation = rotate pg\<rparr>];
          logoUploads' =
            (case logoFile r of
               Some f \<Rightarrow>
                 if kind r = ''logo''
                 then logoUploads @ [\<lparr>up_rect_idx = idx, field = ''logo_'' @ digits idx, up_file = f\<rparr>]
                 else logoUploads
             | None \<Rightarrow> logoUploads)
      in rect_loop p pg rs (rectangles', logoUploads', idx + 1))"

text \<open>The outer loop \<^verbatim>\<open>for (let p = 1; p <= numPages; p++)\<close>, lines 371-395.\<close>

fun page_loop ::
  "pdfPage list \<Rightarrow> (nat \<rightharpoonup> pageRect list) \<Rightarrow> nat list
     \<Rightarrow> payloadRect list \<times> logoUpload list \<times> nat
     \<Rightarrow> payloadRect list \<times> logoUpload list \<times> nat" where
  "page_loop doc prs [] acc = acc"
| "page_loop doc prs (p # ps) acc =
     page_loop doc prs ps (rect_loop p (doc ! (p - 1)) (rectsOf prs p) acc)"

text \<open>\<^verbatim>\<open>buildPayloadAndLogos\<close>, lines 365-397.\<close>

definition buildPayloadAndLogos :: "app1 \<Rightarrow> payloadRect list \<times> logoUpload list" where
  "buildPayloadAndLogos s =
     (case pdfDoc s of
        None \<Rightarrow> ([], [])
      | Some doc \<Rightarrow>
          (case page_loop doc (pageRects s) [1 ..< Suc (length doc)] ([], [], 0) of
             (rectangles, logoUploads, idx) \<Rightarrow> (rectangles, logoUploads)))"

text \<open>
  The asset map of \<^verbatim>\<open>onSubmit\<close>, lines 415-416:
  \<^verbatim>\<open>for (const u of logoUploads) image_map[u.rect_idx] = u.field\<close>.
\<close>

fun image_map_loop :: "logoUpload list \<Rightarrow> (nat \<rightharpoonup> string) \<Rightarrow> (nat \<rightharpoonup> string)" where
  "image_map_loop [] m = m"
| "image_map_loop (u # us) m = image_map_loop us (m(up_rect_idx u \<mapsto> field u))"

definition image_map1 :: "app1 \<Rightarrow> (nat \<rightharpoonup> string)" where
  "image_map1 s = image_map_loop (snd (buildPayloadAndLogos s)) Map.empty"

text \<open>
  The store flattened in the order in which the two loops visit it: the pages of the
  document one by one, each page's list from first to last, every entry with its page
  number. \<open>pageOffset\<close> is the number of entries visited before those of page \<open>p\<close>.
\<close>

definition storeEntries :: "pdfPage list \<Rightarrow> (nat \<rightharpoonup> pageRect list) \<Rightarrow> (nat \<times> pageRect) list" where
  "storeEntries doc prs =
     concat (map (\<lambda>p. map (Pair p) (rectsOf prs p)) [1 ..< Suc (length doc)])"

definition pageOffset :: "(nat \<rightharpoonup> pageRect list) \<Rightarrow> nat \<Rightarrow> nat" where
  "pageOffset prs p = length (concat (map (rectsOf prs) [1 ..< p]))"

text \<open>
  What the loops push for the entry \<open>(p, r)\<close> visited when the counter is \<open>i\<close>: the
  payload object, the upload object, and the test that guards the upload.
\<close>

definition payloadOf :: "pdfPage list \<Rightarrow> nat \<times> nat \<times> pageRect \<Rightarrow> payloadRect" where
  "payloadOf doc e =
     (case e of (i, p, r) \<Rightarrow>
        \<lparr>rect_idx = i, page = p - 1, out_kind = kind r,
         bbox_norm = [x1n (nr r), y1n (nr r), x2n (nr r), y2n (nr r)],
         bbox_pts = [fmt (binary64 (x1n (nr r) * widthPts (doc ! (p - 1)))),
                     fmt (binary64 (y1n (nr r) * heightPts (doc ! (p - 1)))),
                     fmt (binary64 (x2n (nr r) * widthPts (doc ! (p - 1)))),
                     fmt (binary64 (y2n (nr r) * heightPts (doc ! (p - 1))))],
         page_w_pts = fmt (widthPts (doc ! (p - 1))),
         page_h_pts = fmt (heightPts (doc ! (p - 1))),
         rotation = rotate (doc ! (p - 1))\<rparr>)"

text \<open>
  The normalized coordinates of a store entry multiplied by the width and height of
  its page at scale 1, as real numbers: the box in points before any rounding.
\<close>

definition pointsOf :: "pdfPage list \<Rightarrow> nat \<times> pageRect \<Rightarrow> real list" where
  "pointsOf doc e =
     (case e of (p, r) \<Rightarrow>
        [x1n (nr r) * widthPts (doc ! (p - 1)), y1n (nr r) * heightPts (doc ! (p - 1)),
         x2n (nr r) * widthPts (doc ! (p - 1)), y2n (nr r) * heightPts (doc ! (p - 1))])"

definition uploadOf :: "nat \<times> nat \<times> pageRect \<Rightarrow> logoUpload" where
  "uploadOf e =
     (case e of (i, p, r) \<Rightarrow>
        \<lparr>up_rect_idx = i, field = ''logo_'' @ digits i,
         up_file = (case logoFile r of None \<Rightarrow> [] | Some f \<Rightarrow> f)\<rparr>)"

definition hasLogoFile :: "nat \<times> nat \<times> pageRect \<Rightarrow> bool" where
  "hasLogoFile e = (case e of (i, p, r) \<Rightarrow> kind r = ''logo'' \<and> logoFile r \<noteq> None)"

text \<open>
  The scenario of a US Letter page (\<open>612 \<times> 792\<close> points) shown at zoom \<open>1.5\<close>, so on a
  surface of \<open>918 \<times> 1188\<close> pixels, with a drag in progress from the point \<open>p\<close> to the
  bottom right corner of the surface.
\<close>

definition letterDrag :: "real \<times> real \<Rightarrow> app1" where
  "letterDrag p =
     \<lparr>activeFileIdx = 0, pdfDoc = Some [\<lparr>widthPts = 612, heightPts = 792, rotate = 0\<rparr>],
      pageNumber = 1, zoom = 3 / 2, overlayCanvas = Some (918, 1188),
      isDrawing = True, startPos = p, currentPos = (918, 1188), pageRects = Map.empty\<rparr>"

text \<open>
  The full-surface rectangle of the scenario, switched to \<^verbatim>\<open>logo\<close> with a logo file
  attached.
\<close>

definition logoStore :: app1 where
  "logoStore =
     setRectLogoFile 0 (Some ''logo.png'')
       (updateRectKind 0 ''logo'' (handlePointerUp (letterDrag (0, 0))))"

text \<open>
  A store with one rectangle on each of the pages 1 and 2, page 1 of document 0 being
  shown.
\<close>

definition sharedPage :: app1 where
  "sharedPage =
     \<lparr>activeFileIdx = 0, pdfDoc = Some [\<lparr>widthPts = 612, heightPts = 792, rotate = 0\<rparr>],
      pageNumber = 1, zoom = 1, overlayCanvas = Some (612, 792),
      isDrawing = False, startPos = (0, 0), currentPos = (0, 0),
      pageRects = [1 \<mapsto> [\<lparr>nr = \<lparr>x1n = 0, y1n = 0, x2n = 1, y2n = 1\<rparr>,
                            kind = ''redact'', logoFile = None\<rparr>],
                   2 \<mapsto> [\<lparr>nr = \<lparr>x1n = 0, y1n = 0, x2n = 1 / 2, y2n = 1 / 2\<rparr>,
                            kind = ''redact'', logoFile = None\<rparr>]]\<rparr>"

text \<open>A whole drag: pointer down at \<open>p\<close>, a move to \<open>q\<close>, pointer up.\<close>

definition dragTo :: "real \<times> real \<Rightarrow> real \<times> real \<Rightarrow> app1 \<Rightarrow> app1" where
  "dragTo p q s = handlePointerUp (handlePointerMove q (handlePointerDown p s))"

text \<open>
  The scenario continued: after the full-surface rectangle, a second rectangle over
  the lower right quarter of the same page.
\<close>

definition twoRects :: app1 where
  "twoRects = dragTo (459, 594) (918, 1188) (handlePointerUp (letterDrag (0, 0)))"

text \<open>
  A session on two files. File 0 has two US Letter pages; on its page 2 the two
  rectangles of \<open>twoRects\<close> are drawn in the same order. Then file 1, which has one
  page, is selected.
\<close>

definition letterPage :: pdfPage where
  "letterPage = \<lparr>widthPts = 612, heightPts = 792, rotate = 0\<rparr>"

definition pageTwoSession :: app1 where
  "pageTwoSession =
     dragTo (459, 594) (918, 1188)
       (dragTo (0, 0) (918, 1188)
          (nextPage
             \<lparr>activeFileIdx = 0, pdfDoc = Some [letterPage, letterPage], pageNumber = 1,
              zoom = 3 / 2, overlayCanvas = Some (918, 1188), isDrawing = False,
              startPos = (0, 0), currentPos = (0, 0), pageRects = Map.empty\<rparr>))"

definition otherFile :: app1 where
  "otherFile = loadFile 1 [letterPage] pageTwoSession"

text \<open>
  A page of \<open>600 \<times> 800\<close> points shown at 160 percent, so on a surface of
  \<open>960 \<times> 1280\<close> pixels, with a drag in progress from the pixel \<open>(11, 0)\<close> to the bottom
  right corner of the surface.
\<close>

definition tieDrag :: app1 where
  "tieDrag =
     \<lparr>activeFileIdx = 0, pdfDoc = Some [\<lparr>widthPts = 600, heightPts = 800, rotate = 0\<rparr>],
      pageNumber = 1, zoom = binary64 (8 / 5), overlayCanvas = Some (960, 1280),
      isDrawing = True, startPos = (11, 0), currentPos = (960, 1280), pageRects = Map.empty\<rparr>"

section \<open>Annotation store, interaction and payload builder of PDFSanitizerApp.jsx\<close>

text \<open>
  \<^verbatim>\<open>NewClientSetupPage\<close>, lines 109-294. A committed rectangle is the object of lines
  215-226 (\<^verbatim>\<open>id, x, y, w, h, fileIdx, page, paper, orientation\<close>), the coordinates
  being rounded pixels; a draft is \<^verbatim>\<open>{x, y, w, h}\<close> in pixels. Of the page metadata
  (lines 150-156) the fields copied into a rectangle are kept. Field names carry a
  prefix because record fields share one name space.
\<close>

record draftRect =
  d_x :: real
  d_y :: real
  d_w :: real
  d_h :: real

record zoneRect =
  r_id :: string
  r_x :: int
  r_y :: int
  r_w :: int
  r_h :: int
  r_fileIdx :: nat
  r_page :: nat
  r_paper :: string
  r_orientation :: string

record pageMeta =
  pageNo :: nat
  sizeClass :: string
  orientation :: string

text \<open>
  An entry of \<^verbatim>\<open>rectActions\<close>: \<^verbatim>\<open>{ action, logoFile, logoKey }\<close>. \<^verbatim>\<open>logoFile\<close> is a
  \<^verbatim>\<open>File\<close>, \<^verbatim>\<open>null\<close> or \<^verbatim>\<open>undefined\<close>; \<^verbatim>\<open>logoKey\<close> is the storage key returned by
  the upload or \<^verbatim>\<open>undefined\<close>.
\<close>

datatype jsFileRef = Undefined | Null | File jsFile

record rectAction =
  action :: string
  a_logoFile :: jsFileRef
  logoKey :: "string option"

text \<open>
  The state of the component. \<^verbatim>\<open>overlayMounted\<close> says whether \<^verbatim>\<open>overlayRef.current\<close>
  is set.
\<close>

record app =
  rects :: "zoneRect list"
  rectActions :: "string \<rightharpoonup> rectAction"
  draft :: "draftRect option"
  confirmUI :: "(real \<times> real) option"
  drawingRef :: bool
  startRef :: "(real \<times> real) option"
  overlayMounted :: bool
  activeIndex :: nat
  pageMetaState :: "pageMeta option"
  templateFileIdx :: "nat option"

text \<open>
  \<^verbatim>\<open>onPointerDown\<close>, \<^verbatim>\<open>onPointerMove\<close>, \<^verbatim>\<open>onPointerUp\<close>, lines 195-206; the point is
  the pointer position relative to the overlay. \<^verbatim>\<open>onPointerDown\<close> sets the draft and
  leaves \<^verbatim>\<open>confirmUI\<close> as it is. The differences of line 202 and the sums of line 206
  are rounded to doubles.
\<close>

definition onPointerDown :: "real \<times> real \<Rightarrow> app \<Rightarrow> app" where
  "onPointerDown p s =
     (if \<not> overlayMounted s then s
      else s\<lparr>startRef := Some p, drawingRef := True,
             draft := Some \<lparr>d_x = fst p, d_y = snd p, d_w = 0, d_h = 0\<rparr>\<rparr>)"

definition onPointerMove :: "real \<times> real \<Rightarrow> app \<Rightarrow> app" where
  "onPointerMove p s =
     (case startRef s of
        None \<Rightarrow> s
      | Some st \<Rightarrow>
          if \<not> drawingRef s \<or> \<not> overlayMounted s then s
          else s\<lparr>draft := Some \<lparr>d_x = min (fst st) (fst p), d_y = min (snd st) (snd p),
                                 d_w = \<bar>binary64 (fst p - fst st)\<bar>,
                                 d_h = \<bar>binary64 (snd p - snd st)\<bar>\<rparr>\<rparr>)"

definition onPointerUp :: "app \<Rightarrow> app" where
  "onPointerUp s =
     (if \<not> drawingRef s then s
      else
        let s1 = s\<lparr>drawingRef := False\<rparr>
        in (case draft s1 of
              None \<Rightarrow> s1\<lparr>draft := None, confirmUI := None\<rparr>
            | Some d \<Rightarrow>
                if d_w d < 4 \<or> d_h d < 4 then s1\<lparr>draft := None, confirmUI := None\<rparr>
                else s1\<lparr>confirmUI := Some (binary64 (binary64 (d_x d + d_w d) + 8),
                                           binary64 (binary64 (d_y d + d_h d) + 8))\<rparr>))"

text \<open>
  \<^verbatim>\<open>confirmDraft\<close>, lines 208-229. The fresh identifier
  \<^verbatim>\<open>String(Date.now()) + "-" + Math.random().toString(36).slice(2)\<close> is an argument.
  The function tests that there is a draft, and nothing about its size. Its button is
  shown whenever \<^verbatim>\<open>confirmUI\<close> and \<^verbatim>\<open>draft\<close> are both set (line 338).
\<close>

definition confirmDraft :: "string \<Rightarrow> app \<Rightarrow> app" where
  "confirmDraft ident s =
     (case draft s of
        None \<Rightarrow> s
      | Some d \<Rightarrow>
          if \<not> overlayMounted s then s
          else s\<lparr>templateFileIdx :=
                   (case templateFileIdx s of None \<Rightarrow> Some (activeIndex s) | Some t \<Rightarrow> Some t),
                 rects := rects s @
                   [\<lparr>r_id = ident,
                     r_x = math_round (d_x d), r_y = math_round (d_y d),
                     r_w = math_round (d_w d), r_h = math_round (d_h d),
                     r_fileIdx = activeIndex s,
                     r_page = (case pageMetaState s of None \<Rightarrow> 0 | Some m \<Rightarrow> pageNo m),
                     r_paper = (case pageMetaState s of None \<Rightarrow> ''A4'' | Some m \<Rightarrow> sizeClass m),
                     r_orientation =
                       (case pageMetaState s of None \<Rightarrow> ''H'' | Some m \<Rightarrow> orientation m)\<rparr>],
                 rectActions := (rectActions s)(ident \<mapsto>
                   \<lparr>action = ''redact'', a_logoFile = Undefined, logoKey = None\<rparr>),
                 draft := None, confirmUI := None\<rparr>)"

text \<open>\<^verbatim>\<open>cancelDraft\<close> and \<^verbatim>\<open>removeRect\<close>, lines 230-234.\<close>

definition cancelDraft :: "app \<Rightarrow> app" where
  "cancelDraft s = s\<lparr>draft := None, confirmUI := None\<rparr>"

definition removeRectById :: "string \<Rightarrow> app \<Rightarrow> app" where
  "removeRectById ident s =
     s\<lparr>rects := filter (\<lambda>r. r_id r \<noteq> ident) (rects s),
       rectActions := (rectActions s)(ident := None)\<rparr>"

text \<open>
  The \<^verbatim>\<open>onChange\<close> of the action selector, lines 394-400: the entry is replaced by a
  new object with the two fields \<^verbatim>\<open>action\<close> and \<^verbatim>\<open>logoFile\<close> only, so a \<^verbatim>\<open>logoKey\<close>
  of the old entry is gone. \<^verbatim>\<open>prev[r.id]?.logoFile || null\<close> keeps a \<^verbatim>\<open>File\<close> and
  is \<^verbatim>\<open>null\<close> otherwise.
\<close>

definition actionOnChange :: "string \<Rightarrow> string \<Rightarrow> app \<Rightarrow> app" where
  "actionOnChange ident v s =
     (let act = (if v = ''logo'' then ''logo'' else ''redact'');
          prevFile = (case rectActions s ident of
                        None \<Rightarrow> Null
                      | Some a \<Rightarrow> (case a_logoFile a of File f \<Rightarrow> File f | _ \<Rightarrow> Null))
      in s\<lparr>rectActions := (rectActions s)(ident \<mapsto>
             \<lparr>action = act,
              a_logoFile = (if act = ''logo'' then prevFile else Undefined),
              logoKey = None\<rparr>)\<rparr>)"

text \<open>
  The \<^verbatim>\<open>onChange\<close> of the logo file input, lines 415-436. Its arguments are the
  chosen file, if any, and the outcome of the upload request: the key of the stored
  logo, or \<open>None\<close> when the request failed (the handler then alerts and returns).
  With a file chosen the handler writes nothing before its \<^verbatim>\<open>await\<close>, so the
  function is the step taken when the upload settles; other handlers may have run
  since the file was chosen, and the entry written does not depend on what they left.
\<close>

definition logoOnChange :: "string \<Rightarrow> jsFile option \<Rightarrow> string option \<Rightarrow> app \<Rightarrow> app" where
  "logoOnChange ident f upload s =
     (case f of
        None \<Rightarrow> s\<lparr>rectActions := (rectActions s)(ident \<mapsto>
                   \<lparr>action = ''logo'', a_logoFile = Null, logoKey = None\<rparr>)\<rparr>
      | Some fl \<Rightarrow>
          (case upload of
             None \<Rightarrow> s
           | Some key \<Rightarrow> s\<lparr>rectActions := (rectActions s)(ident \<mapsto>
                   \<lparr>action = ''logo'', a_logoFile = File fl, logoKey = Some key\<rparr>)\<rparr>))"

text \<open>
  The zone object built at lines 247-253. \<^verbatim>\<open>confirmDraft\<close> sets every field of a
  rectangle, so the defaults after \<^verbatim>\<open>??\<close> are never taken.
\<close>

record zone =
  z_page :: nat
  bbox :: "int list"
  paper :: string
  z_orientation :: string
  file_idx :: nat

definition zoneOf :: "zoneRect \<Rightarrow> zone" where
  "zoneOf r =
     \<lparr>z_page = r_page r, bbox = [r_x r, r_y r, r_x r + r_w r, r_y r + r_h r],
      paper = r_paper r, z_orientation = r_orientation r, file_idx = r_fileIdx r\<rparr>"

text \<open>
  The body of \<^verbatim>\<open>rects.forEach\<close>, lines 245-265, on the loop state
  \<^verbatim>\<open>(template_zones, image_map)\<close> and the list of \<^verbatim>\<open>console.warn\<close> calls made so far.
  \<^verbatim>\<open>template_zones.push(zone) - 1\<close> is the index of the zone just pushed;
  \<^verbatim>\<open>!a.logoKey\<close> holds for \<^verbatim>\<open>undefined\<close> and for the empty string.
\<close>

definition logoWarning :: string where
  "logoWarning = ''Logo rectangle without uploaded key; skipping placement for this rect.''"

fun zones_loop ::
  "(string \<rightharpoonup> rectAction) \<Rightarrow> zoneRect list \<Rightarrow> zone list \<times> (nat \<rightharpoonup> string) \<times> string list
     \<Rightarrow> zone list \<times> (nat \<rightharpoonup> string) \<times> string list" where
  "zones_loop acts [] acc = acc"
| "zones_loop acts (r # rs) (template_zones, image_map, warns) =
     (let template_zones' = template_zones @ [zoneOf r];
          idxInZones = length template_zones' - 1
      in zones_loop acts rs
           (case acts (r_id r) of
              None \<Rightarrow> (template_zones', image_map, warns)
            | Some a \<Rightarrow>
                if action a = ''logo''
                then (case logoKey a of
                        None \<Rightarrow> (template_zones', image_map, warns @ [logoWarning])
                      | Some k \<Rightarrow>
                          if k = [] then (template_zones', image_map, warns @ [logoWarning])
                          else (template_zones', image_map(idxInZones \<mapsto> k), warns))
                else (template_zones', image_map, warns)))"

text \<open>
  The loop run from the empty zone list and the empty asset map, as
  \<^verbatim>\<open>runSanitization\<close> runs it (lines 240-241 and 245).
\<close>

definition buildZones :: "app \<Rightarrow> zone list \<times> (nat \<rightharpoonup> string) \<times> string list" where
  "buildZones s = zones_loop (rectActions s) (rects s) ([], Map.empty, [])"

text \<open>
  The payload part of \<^verbatim>\<open>runSanitization\<close>, lines 237-271: \<open>None\<close> when no file is
  selected (the function alerts and returns), else the zone list, the asset map and the
  warnings logged while building them. The request itself is outside the model.
\<close>

definition runSanitization ::
  "nat \<Rightarrow> app \<Rightarrow> (zone list \<times> (nat \<rightharpoonup> string) \<times> string list) option" where
  "runSanitization nFiles s = (if nFiles = 0 then None else Some (buildZones s))"

text \<open>\<^verbatim>\<open>buildImageMapForTest(rects, actions)\<close>, lines 68-75, on the list of rectangle
  identifiers; an action there is \<^verbatim>\<open>{ action, logoName }\<close>, and \<^verbatim>\<open>a.logoName\<close> is
  truthy when it is a non-empty string.\<close>

fun buildImageMapForTest_loop ::
  "(string \<rightharpoonup> string \<times> string option) \<Rightarrow> string list \<Rightarrow> nat \<Rightarrow> (nat \<rightharpoonup> string)
     \<Rightarrow> (nat \<rightharpoonup> string)" where
  "buildImageMapForTest_loop actions [] idx imageMap = imageMap"
| "buildImageMapForTest_loop actions (ident # ids) idx imageMap =
     buildImageMapForTest_loop actions ids (idx + 1)
       (case actions ident of
          Some (act, Some logoName) \<Rightarrow>
            if act = ''logo'' \<and> logoName \<noteq> [] then imageMap(idx \<mapsto> logoName) else imageMap
        | _ \<Rightarrow> imageMap)"

definition buildImageMapForTest ::
  "string list \<Rightarrow> (string \<rightharpoonup> string \<times> string option) \<Rightarrow> (nat \<rightharpoonup> string)" where
  "buildImageMapForTest ids actions = buildImageMapForTest_loop actions ids 0 Map.empty"

text \<open>
  The asset key the loop stores for a rectangle, if any, and the test under which it
  warns instead: the action is \<^verbatim>\<open>logo\<close> and the key is missing or empty.
\<close>

definition resolvedKey :: "(string \<rightharpoonup> rectAction) \<Rightarrow> zoneRect \<Rightarrow> string option" where
  "resolvedKey acts r =
     (case acts (r_id r) of
        None \<Rightarrow> None
      | Some a \<Rightarrow>
          if action a = ''logo''
          then (case logoKey a of None \<Rightarrow> None | Some k \<Rightarrow> if k = [] then None else Some k)
          else None)"

definition unresolvedLogo :: "(string \<rightharpoonup> rectAction) \<Rightarrow> zoneRect \<Rightarrow> bool" where
  "unresolvedLogo acts r =
     (case acts (r_id r) of
        None \<Rightarrow> False
      | Some a \<Rightarrow> action a = ''logo'' \<and> (logoKey a = None \<or> logoKey a = Some []))"

text \<open>The two rectangles the session below commits.\<close>

definition rectA :: zoneRect where
  "rectA = \<lparr>r_id = ''a'', r_x = 10, r_y = 10, r_w = 100, r_h = 50, r_fileIdx = 0,
            r_page = 0, r_paper = ''A4'', r_orientation = ''V''\<rparr>"

definition rectB :: zoneRect where
  "rectB = \<lparr>r_id = ''b'', r_x = 200, r_y = 200, r_w = 100, r_h = 60, r_fileIdx = 0,
            r_page = 0, r_paper = ''A4'', r_orientation = ''V''\<rparr>"

text \<open>
  A session: on a fresh page a rectangle \<open>a\<close> is drawn and confirmed, then a rectangle
  \<open>b\<close>; both are switched to \<^verbatim>\<open>logo\<close> and a logo is uploaded for \<open>b\<close> only; at last
  \<open>b\<close> is switched back to \<^verbatim>\<open>redact\<close>.
\<close>

definition emptySession :: app where
  "emptySession =
     \<lparr>rects = [], rectActions = Map.empty, draft = None, confirmUI = None,
      drawingRef = False, startRef = None, overlayMounted = True, activeIndex = 0,
      pageMetaState = Some \<lparr>pageNo = 0, sizeClass = ''A4'', orientation = ''V''\<rparr>,
      templateFileIdx = None\<rparr>"

definition drawDraft :: "real \<times> real \<Rightarrow> real \<times> real \<Rightarrow> app \<Rightarrow> app" where
  "drawDraft p q s = onPointerUp (onPointerMove q (onPointerDown p s))"

definition sessionA :: app where
  "sessionA = drawDraft (10, 10) (110, 60) emptySession"

definition sessionB :: app where
  "sessionB = drawDraft (200, 200) (300, 260) (confirmDraft ''a'' sessionA)"

definition sessionAB :: app where
  "sessionAB = confirmDraft ''b'' sessionB"

definition sessionLogo :: app where
  "sessionLogo =
     logoOnChange ''b'' (Some ''logo.png'') (Some ''logos/logo.png'')
       (actionOnChange ''b'' ''logo'' (actionOnChange ''a'' ''logo'' sessionAB))"

definition sessionRedact :: app where
  "sessionRedact = actionOnChange ''b'' ''redact'' sessionLogo"

text \<open>
  The session with a logo of \<open>b\<close> stored, continued: another file is chosen for
  \<open>b\<close>, \<open>b\<close> is switched to \<^verbatim>\<open>redact\<close> while the upload of that file is under
  way (\<open>sessionRedact\<close>), and then the upload settles.
\<close>

definition sessionLateUpload :: app where
  "sessionLateUpload =
     logoOnChange ''b'' (Some ''mark.png'') (Some ''logos/mark.png'') sessionRedact"

text \<open>
  The session in which the draft of \<open>a\<close> waits for its confirmation (\<open>sessionA\<close>),
  continued by a pointer-down at \<open>(50, 50)\<close> and then \<^verbatim>\<open>Confirm\<close>, no pointer-up
  having reached the overlay in between (the overlay has no handler for a cancelled
  pointer, and the button can be activated from the keyboard or by another pointer).
\<close>

definition sessionStaleConfirm :: app where
  "sessionStaleConfirm = confirmDraft ''c'' (onPointerDown (50, 50) sessionA)"

section \<open>Render controller (PDFSanitizerApp0.jsx and PDFSanitizerApp1.jsx)\<close>



text \<open>
  Where a call waits: for its page; for its task, and it then holds the width and
  height of its \<^verbatim>\<open>viewport\<close>; or nowhere, when it has returned.
\<close>

datatype phase = AwaitPage | AwaitTask "real \<times> real" | Returned

text \<open>The parameters of a call, its document, page number and scale, and its phase.\<close>

record frame =
  f_doc :: nat
  f_page :: nat
  f_scale :: real
  f_phase :: phase





text \<open>
  The surface and the controller: width and height of the base canvas and of the
  overlay canvas (a fresh canvas is \<open>300 \<times> 150\<close>), \<^verbatim>\<open>renderTaskRef.current\<close>, the
  tasks on which \<^verbatim>\<open>cancel()\<close> was called, the calls made so far, and the
  \<^verbatim>\<open>rendering\<close> flag of PDFSanitizerApp1.jsx. Two histories are kept beside them: the
  calls that assigned the overlay size, in the order of the assignments, and the calls
  that logged a render error.
\<close>

record renderState =
  canvasSize :: "nat \<times> nat"
  overlaySize :: "nat \<times> nat"
  renderTaskRef :: "nat option"
  cancelledTasks :: "nat list"
  frames :: "frame list"
  rendering :: bool
  overlayWrites :: "nat list"
  renderErrors :: "nat list"





definition awaitsTask :: "nat \<Rightarrow> renderState \<Rightarrow> (real \<times> real) option" where
  "awaitsTask i s =
     (if i < length (frames s)
      then (case f_phase (frames s ! i) of AwaitTask v \<Rightarrow> Some v | _ \<Rightarrow> None)
      else None)"
















section \<open>The erase-term parser of PDFSanitizerApp.jsx\<close>

text \<open>
  A JavaScript string is a sequence of UTF-16 code units; the model is \<^typ>\<open>string\<close>,
  so it covers the strings whose code units are below 256.
\<close>

text \<open>
  \<^verbatim>\<open>String.prototype.trim\<close> removes white space and line terminators from both ends;
  among the code units below 256 these are tab, line feed, vertical tab, form feed,
  carriage return, space and no-break space.
\<close>

definition isSpace :: "char \<Rightarrow> bool" where
  "isSpace c \<longleftrightarrow> of_char c \<in> {9, 10, 11, 12, 13, 32, 160 :: nat}"

definition trim :: "string \<Rightarrow> string" where
  "trim s = rev (dropWhile isSpace (rev (dropWhile isSpace s)))"

text \<open>
  \<^verbatim>\<open>String.prototype.toLowerCase\<close> on code units below 256: the letters \<open>A\<close> to \<open>Z\<close>
  and the accented capitals \<open>U+00C0\<close> to \<open>U+00DE\<close> (without the multiplication sign
  \<open>U+00D7\<close>) move up by 32, every other code unit is kept.
\<close>

definition lowerChar :: "char \<Rightarrow> char" where
  "lowerChar c =
     (let n = of_char c :: nat
      in if (65 \<le> n \<and> n \<le> 90) \<or> (192 \<le> n \<and> n \<le> 222 \<and> n \<noteq> 215)
         then char_of (n + 32) else c)"

definition toLowerCase :: "string \<Rightarrow> string" where
  "toLowerCase s = map lowerChar s"

text \<open>
  \<^verbatim>\<open>s.split(/[,\n]/)\<close>: the pieces of the string between the separators, of which
  there is always at least one.
\<close>

definition isSep :: "char \<Rightarrow> bool" where
  "isSep c \<longleftrightarrow> c = CHR '','' \<or> c = CHR 0x0A"

fun split_on :: "(char \<Rightarrow> bool) \<Rightarrow> string \<Rightarrow> string list" where
  "split_on sep [] = [Nil]"
| "split_on sep (c # cs) =
     (if sep c then [] # split_on sep cs
      else (case split_on sep cs of
              [] \<Rightarrow> [c] # []
            | p # ps \<Rightarrow> (c # p) # ps))"

text \<open>
  The loop \<^verbatim>\<open>for (const t of arr)\<close> of line 49 on its state: the set \<^verbatim>\<open>seen\<close> and
  the list \<^verbatim>\<open>out\<close>.
\<close>

fun dedup_loop :: "string list \<Rightarrow> string set \<Rightarrow> string list \<Rightarrow> string list" where
  "dedup_loop [] seen out = out"
| "dedup_loop (t # ts) seen out =
     (let k = toLowerCase t
      in if k \<notin> seen then dedup_loop ts (insert k seen) (out @ [t])
         else dedup_loop ts seen out)"

text \<open>
  \<^verbatim>\<open>function parseEraseCSV(input)\<close>, lines 48-49; \<^verbatim>\<open>input || ""\<close> makes a missing
  input the empty string, and \<^verbatim>\<open>filter(Boolean)\<close> keeps the non-empty strings.
\<close>

definition parseEraseCSV :: "string \<Rightarrow> string list" where
  "parseEraseCSV input =
     (let s = trim input
      in if s = [] then []
         else dedup_loop (filter (\<lambda>t. t \<noteq> []) (map trim (split_on isSep s))) {} [])"

text \<open>
  The entries of an input in the words of the specification: split on commas and
  newlines, trim each piece, drop the empty ones.
\<close>

definition eraseEntries :: "string \<Rightarrow> string list" where
  "eraseEntries input = filter (\<lambda>t. t \<noteq> []) (map trim (split_on isSep input))"

text \<open>The loop without its accumulator: what it appends to \<^verbatim>\<open>out\<close>.\<close>

fun keep_first :: "string list \<Rightarrow> string set \<Rightarrow> string list" where
  "keep_first [] seen = []"
| "keep_first (t # ts) seen =
     (if toLowerCase t \<notin> seen then t # keep_first ts (insert (toLowerCase t) seen)
      else keep_first ts seen)"

text \<open>The input of the self-test at line 61, \<^verbatim>\<open>"foo, bar\\nbaz, Foo"\<close>.\<close>

definition selfTestInput :: string where
  "selfTestInput = ''foo, bar'' @ [CHR 0x0A] @ ''baz, Foo''"

section \<open>Properties of the rounding to doubles\<close>

lemma round_even_err: "\<bar>of_int (round_even y) - y\<bar> \<le> 1 / 2"
  unfolding round_even_def Let_def by (auto; linarith)

lemma round_even_of_int: "round_even (of_int n) = n"
  by (simp add: round_even_def)

lemma round_even_mono: "x \<le> y \<Longrightarrow> round_even x \<le> round_even y"
proof -
  assume xy: "x \<le> y"
  have fl: "\<lfloor>x\<rfloor> \<le> \<lfloor>y\<rfloor>" using xy by (rule floor_mono)
  show ?thesis
  proof (cases "\<lfloor>x\<rfloor> = \<lfloor>y\<rfloor>")
    case True
    with xy show ?thesis unfolding round_even_def Let_def by (auto; linarith)
  next
    case False
    with fl have "\<lfloor>x\<rfloor> + 1 \<le> \<lfloor>y\<rfloor>" by simp
    moreover have "round_even x \<le> \<lfloor>x\<rfloor> + 1" unfolding round_even_def Let_def by auto
    moreover have "\<lfloor>y\<rfloor> \<le> round_even y" unfolding round_even_def Let_def by auto
    ultimately show ?thesis by linarith
  qed
qed

lemma round_even_le: "y \<le> of_int n \<Longrightarrow> round_even y \<le> n"
  using round_even_mono [of y "of_int n"] by (simp add: round_even_of_int)

lemma round_even_ge: "of_int n \<le> y \<Longrightarrow> n \<le> round_even y"
  using round_even_mono [of "of_int n" y] by (simp add: round_even_of_int)

lemma quantum_pos: "0 < quantum x"
  by (simp add: quantum_def)

lemma log2_floor_bounds:
  assumes "x \<noteq> 0"
  shows "2 powr of_int \<lfloor>log 2 \<bar>x\<bar>\<rfloor> \<le> \<bar>x\<bar>" and "\<bar>x\<bar> < 2 powr of_int (\<lfloor>log 2 \<bar>x\<bar>\<rfloor> + 1)"
  using assms floor_log_eq_powr_iff [of "\<bar>x\<bar>" 2 "\<lfloor>log 2 \<bar>x\<bar>\<rfloor>"] by simp_all

lemma log2_floor_eq:
  assumes "2 powr of_int e \<le> \<bar>x\<bar>" and "\<bar>x\<bar> < 2 powr of_int (e + 1)"
  shows "\<lfloor>log 2 \<bar>x\<bar>\<rfloor> = e"
proof -
  have p: "0 < \<bar>x\<bar>" using assms(1) powr_gt_zero [of 2 "of_int e"] by linarith
  with assms show ?thesis using floor_log_eq_powr_iff [of "\<bar>x\<bar>" 2 e] by simp
qed

lemma binary64_half_quantum: "x \<noteq> 0 \<Longrightarrow> \<bar>binary64 x - x\<bar> \<le> quantum x / 2"
proof -
  assume nz: "x \<noteq> 0"
  have q: "0 < quantum x" by (rule quantum_pos)
  have "binary64 x - x = (of_int (round_even (x / quantum x)) - x / quantum x) * quantum x"
    using nz q by (simp add: binary64_def field_simps)
  then have "\<bar>binary64 x - x\<bar> = \<bar>of_int (round_even (x / quantum x)) - x / quantum x\<bar> * quantum x"
    using q by (simp add: abs_mult)
  also have "\<dots> \<le> 1 / 2 * quantum x"
    using round_even_err [of "x / quantum x"] q by (intro mult_right_mono) simp_all
  finally show ?thesis by simp
qed

lemma powr_m1074: "(2::real) powr of_int (- 1074) = 1 / 2 ^ 1074"
  by (simp add: powr_minus_divide powr_realpow [symmetric])

lemma quantum_bound: "x \<noteq> 0 \<Longrightarrow> quantum x \<le> \<bar>x\<bar> / 2 ^ 52 + 1 / 2 ^ 1074"
proof -
  assume nz: "x \<noteq> 0"
  let ?e = "\<lfloor>log 2 \<bar>x\<bar>\<rfloor>"
  show ?thesis
  proof (cases "?e - 52 \<le> - 1074")
    case True
    then have "quantum x = 2 powr of_int (- 1074)" by (simp add: quantum_def max_def)
    then show ?thesis unfolding powr_m1074 by simp
  next
    case c: False
    then have "quantum x = 2 powr (of_int ?e - 52)" by (simp add: quantum_def max_def)
    also have "\<dots> = 2 powr of_int ?e / 2 ^ 52"
      by (simp add: powr_diff powr_realpow [symmetric])
    also have "\<dots> \<le> \<bar>x\<bar> / 2 ^ 52"
      using log2_floor_bounds(1) [OF nz] by (simp add: divide_right_mono)
    finally show ?thesis by simp
  qed
qed

lemma binary64_err: "\<bar>binary64 x - x\<bar> \<le> \<bar>x\<bar> / 2 ^ 53 + 1 / 2 ^ 1075"
proof (cases "x = 0")
  case True
  then show ?thesis by (simp add: binary64_def)
next
  case False
  from binary64_half_quantum [OF False] quantum_bound [OF False] show ?thesis by simp
qed


lemma quantum_eq:
  assumes "2 powr of_int e \<le> \<bar>x\<bar>" and "\<bar>x\<bar> < 2 powr of_int (e + 1)"
  shows "quantum x = 2 powr of_int (max (e - 52) (- 1074))"
  using log2_floor_eq [OF assms] by (simp add: quantum_def)

lemma binary64_eval:
  assumes lo: "2 ^ 52 \<le> \<bar>x\<bar> * 2 ^ n" and hi: "\<bar>x\<bar> * 2 ^ n < 2 ^ 53" and n: "n \<le> 1074"
  shows "binary64 x = of_int (round_even (x * 2 ^ n)) / 2 ^ n"
proof -
  have pn: "(2::real) powr of_int (- int n) = 1 / 2 ^ n"
    by (simp add: powr_minus_divide powr_realpow [symmetric])
  have a: "2 powr of_int (52 - int n) = (2::real) ^ 52 / 2 ^ n"
    using pn by (simp add: powr_diff powr_realpow [symmetric] powr_minus_divide)
  have b: "2 powr of_int (52 - int n + 1) = (2::real) ^ 53 / 2 ^ n"
    using pn by (simp add: powr_diff powr_add powr_realpow [symmetric] powr_minus_divide)
  have l: "2 powr of_int (52 - int n) \<le> \<bar>x\<bar>"
    unfolding a using lo by (simp add: field_simps)
  have h: "\<bar>x\<bar> < 2 powr of_int (52 - int n + 1)"
    unfolding b using hi by (simp add: field_simps)
  have "quantum x = 2 powr of_int (max (52 - int n - 52) (- 1074))"
    by (rule quantum_eq [OF l h])
  also have "max (52 - int n - 52) (- 1074) = - int n" using n by simp
  finally have q: "quantum x = 1 / 2 ^ n" using pn by simp
  have "x \<noteq> 0" using lo by auto
  then show ?thesis by (simp add: binary64_def q)
qed

lemma binary64_0: "binary64 0 = 0"
  by (simp add: binary64_def)

lemma binary64_1: "binary64 1 = 1"
  using binary64_eval [of 1 52] by (simp add: round_even_of_int [of "2 ^ 52", simplified])

lemma binary64_nonneg: "0 \<le> x \<Longrightarrow> 0 \<le> binary64 x"
proof (cases "x = 0")
  case True
  then show ?thesis by (simp add: binary64_def)
next
  case False
  assume "0 \<le> x"
  then have "0 \<le> x / quantum x" using quantum_pos [of x] by simp
  then have "0 \<le> round_even (x / quantum x)" using round_even_ge [of 0] by simp
  then show ?thesis using False quantum_pos [of x] by (simp add: binary64_def)
qed


lemma binary64_upper:
  assumes "0 < a"
  shows "binary64 a \<le> 2 ^ 53 * quantum a"
proof -
  define e where "e = \<lfloor>log 2 \<bar>a\<bar>\<rfloor>"
  define k where "k = max (e - 52) (- 1074)"
  have q: "quantum a = 2 powr of_int k" by (simp add: quantum_def k_def e_def)
  have "\<bar>a\<bar> < 2 powr of_int (e + 1)"
    using log2_floor_bounds(2) [of a] assms by (simp add: e_def)
  also have "\<dots> \<le> 2 powr of_int (k + 53)"
    by (intro powr_mono) (simp_all add: k_def)
  also have "\<dots> = 2 ^ 53 * 2 powr of_int k"
    by (simp add: powr_add powr_realpow [symmetric])
  finally have "a / quantum a \<le> 2 ^ 53"
    using assms by (simp add: q field_simps)
  then have "a / quantum a \<le> of_int (2 ^ 53)" by simp
  then have "round_even (a / quantum a) \<le> 2 ^ 53" by (rule round_even_le)
  then have "(of_int (round_even (a / quantum a)) :: real) \<le> of_int (2 ^ 53)"
    by (simp only: of_int_le_iff)
  then have "of_int (round_even (a / quantum a)) * quantum a \<le> 2 ^ 53 * quantum a"
    using quantum_pos [of a] by (intro mult_right_mono) simp_all
  with assms show ?thesis by (simp add: binary64_def)
qed

lemma binary64_lower:
  assumes "0 < b" and "- 1074 < \<lfloor>log 2 \<bar>b\<bar>\<rfloor> - 52"
  shows "2 ^ 52 * quantum b \<le> binary64 b"
proof -
  define e where "e = \<lfloor>log 2 \<bar>b\<bar>\<rfloor>"
  have q: "quantum b = 2 powr of_int (e - 52)"
    using assms(2) by (simp add: quantum_def e_def max_def)
  have "2 ^ 52 * 2 powr of_int (e - 52) = (2::real) powr of_int e"
    by (simp add: powr_diff powr_realpow [symmetric])
  also have "\<dots> \<le> \<bar>b\<bar>"
    using log2_floor_bounds(1) [of b] assms by (simp add: e_def)
  finally have "2 ^ 52 \<le> b / quantum b"
    using assms quantum_pos [of b] by (simp add: q field_simps)
  then have "of_int (2 ^ 52) \<le> b / quantum b" by simp
  then have "2 ^ 52 \<le> round_even (b / quantum b)" by (rule round_even_ge)
  then have "(of_int (2 ^ 52) :: real) \<le> of_int (round_even (b / quantum b))"
    by (simp only: of_int_le_iff)
  then have "2 ^ 52 * quantum b \<le> of_int (round_even (b / quantum b)) * quantum b"
    using quantum_pos [of b] by (intro mult_right_mono) simp_all
  with assms show ?thesis by (simp add: binary64_def)
qed

lemma binary64_mono:
  assumes "0 \<le> a" and "a \<le> b"
  shows "binary64 a \<le> binary64 b"
proof (cases "a = 0")
  case True
  with assms binary64_nonneg [of b] show ?thesis by (simp add: binary64_def)
next
  case False
  with assms have a: "0 < a" and b: "0 < b" by simp_all
  define ka where "ka = max (\<lfloor>log 2 \<bar>a\<bar>\<rfloor> - 52) (- 1074)"
  define kb where "kb = max (\<lfloor>log 2 \<bar>b\<bar>\<rfloor> - 52) (- 1074)"
  have qa: "quantum a = 2 powr of_int ka" and qb: "quantum b = 2 powr of_int kb"
    by (simp_all add: quantum_def ka_def kb_def)
  have "log 2 \<bar>a\<bar> \<le> log 2 \<bar>b\<bar>" using a b assms by simp
  then have "\<lfloor>log 2 \<bar>a\<bar>\<rfloor> \<le> \<lfloor>log 2 \<bar>b\<bar>\<rfloor>" by (rule floor_mono)
  then have le: "ka \<le> kb" by (simp add: ka_def kb_def)
  show ?thesis
  proof (cases "ka = kb")
    case True
    then have q: "quantum a = quantum b" by (simp add: qa qb)
    have "a / quantum b \<le> b / quantum b"
      using assms quantum_pos [of b] by (simp add: divide_right_mono)
    then have "round_even (a / quantum b) \<le> round_even (b / quantum b)"
      by (rule round_even_mono)
    then have "(of_int (round_even (a / quantum b)) :: real) \<le> of_int (round_even (b / quantum b))"
      by (simp only: of_int_le_iff)
    then have "of_int (round_even (a / quantum b)) * quantum b
                 \<le> of_int (round_even (b / quantum b)) * quantum b"
      using quantum_pos [of b] by (intro mult_right_mono) simp_all
    with a b q show ?thesis by (simp add: binary64_def)
  next
    case False
    with le have lt: "ka + 1 \<le> kb" by simp
    then have "- 1074 < kb" by (simp add: ka_def)
    then have n: "- 1074 < \<lfloor>log 2 \<bar>b\<bar>\<rfloor> - 52" by (simp add: kb_def max_def split: if_splits)
    have "binary64 a \<le> 2 ^ 53 * quantum a" by (rule binary64_upper [OF a])
    also have "\<dots> = 2 ^ 52 * 2 powr of_int (ka + 1)"
      by (simp add: qa powr_add)
    also have "\<dots> \<le> 2 ^ 52 * 2 powr of_int kb"
      using lt by (intro mult_left_mono powr_mono) simp_all
    also have "\<dots> \<le> binary64 b"
      using binary64_lower [OF b n] by (simp add: qb)
    finally show ?thesis .
  qed
qed

text \<open>The whole numbers below \<open>2 ^ 53\<close> are doubles.\<close>

lemma binary64_of_nat:
  assumes "m < 2 ^ 53"
  shows "binary64 (of_nat m) = of_nat m"
proof (cases "m = 0")
  case True
  then show ?thesis by (simp add: binary64_0)
next
  case False
  then have "1 \<le> m" by simp
  with ex_power_ivl1 [of 2 m] obtain k where k: "2 ^ k \<le> m" "m < 2 ^ (k + 1)" by auto
  from k(1) assms have lt: "(2::nat) ^ k < 2 ^ 53" by linarith
  have k53: "k < 53"
  proof (rule ccontr)
    assume "\<not> k < 53"
    then have "53 \<le> k" by simp
    then have "(2::nat) ^ 53 \<le> 2 ^ k" by (rule power_increasing) simp
    with lt show False by linarith
  qed
  define n where "n = 52 - k"
  have kn: "k + n = 52" using k53 by (simp add: n_def)
  have "(2::nat) ^ 52 = 2 ^ k * 2 ^ n" using kn by (simp add: power_add [symmetric])
  also have "\<dots> \<le> m * 2 ^ n" using k(1) by simp
  finally have "(of_nat ((2::nat) ^ 52) :: real) \<le> of_nat (m * 2 ^ n)"
    by (simp only: of_nat_le_iff)
  then have lo: "2 ^ 52 \<le> \<bar>of_nat m :: real\<bar> * 2 ^ n" by simp
  have "m * 2 ^ n < 2 ^ (k + 1) * 2 ^ n" using k(2) by simp
  also have "\<dots> = 2 ^ 53" using kn by (simp add: power_add [symmetric])
  finally have "(of_nat (m * 2 ^ n) :: real) < of_nat ((2::nat) ^ 53)"
    by (simp only: of_nat_less_iff)
  then have hi: "\<bar>of_nat m :: real\<bar> * 2 ^ n < 2 ^ 53" by simp
  have "(of_nat m :: real) * 2 ^ n = of_int (int (m * 2 ^ n))" by simp
  then have "round_even (of_nat m * 2 ^ n) = int (m * 2 ^ n)"
    by (simp only: round_even_of_int)
  with binary64_eval [OF lo hi] kn show ?thesis by simp
qed

lemma binary64_numeral:
  "(numeral w :: nat) < 2 ^ 53 \<Longrightarrow> binary64 (numeral w) = numeral w"
  using binary64_of_nat [of "numeral w"] by simp

text \<open>
  The error of one rounding, with the subnormal term named; the error of a quotient
  multiplied back; and the error of \<^verbatim>\<open>fmt\<close> after a rounded product.
\<close>

lemma binary64_err_tiny:
  fixes t :: real
  assumes "t = 1 / 2 ^ 1075"
  shows "\<bar>binary64 y - y\<bar> \<le> \<bar>y\<bar> / 2 ^ 53 + t" and "0 \<le> t" and "t \<le> 1 / 2 ^ 54"
    and "2 * t = 1 / 2 ^ 1074"
  using binary64_err [of y] assms by simp_all

lemma roundtrip_coord:
  assumes w: "0 < w" and x0: "0 \<le> x" and xw: "x \<le> w"
  shows "\<bar>binary64 (binary64 (x / w) * w) - x\<bar> \<le> w / 2 ^ 51 + 1 / 2 ^ 1074"
proof -
  define t :: real where "t = 1 / 2 ^ 1075"
  note err = binary64_err_tiny [OF t_def]
  define a where "a = binary64 (x / w)"
  define p where "p = a * w"
  have q: "0 \<le> x / w" using w x0 by simp
  have a0: "0 \<le> a" unfolding a_def using q by (rule binary64_nonneg)
  have p0: "0 \<le> p" unfolding p_def using a0 w by simp
  have "\<bar>a - x / w\<bar> \<le> \<bar>x / w\<bar> / 2 ^ 53 + t"
    unfolding a_def by (rule err(1))
  with q have "\<bar>a - x / w\<bar> \<le> x / w / 2 ^ 53 + t" by (simp only: abs_of_nonneg)
  then have "\<bar>a - x / w\<bar> * w \<le> (x / w / 2 ^ 53 + t) * w"
    using w by (intro mult_right_mono) simp_all
  moreover have "p - x = (a - x / w) * w"
    using w by (simp add: p_def field_simps)
  then have "\<bar>p - x\<bar> = \<bar>a - x / w\<bar> * w"
    using w by (simp only: abs_mult abs_of_pos)
  moreover have "(x / w / 2 ^ 53 + t) * w = x / 2 ^ 53 + t * w"
    using w by (simp add: field_simps)
  ultimately have e1: "\<bar>p - x\<bar> \<le> x / 2 ^ 53 + t * w" by simp
  have "\<bar>binary64 p - p\<bar> \<le> \<bar>p\<bar> / 2 ^ 53 + t" by (rule err(1))
  with p0 have e2: "\<bar>binary64 p - p\<bar> \<le> p / 2 ^ 53 + t" by (simp only: abs_of_nonneg)
  have tw: "0 \<le> t * w" "t * w \<le> 1 / 2 ^ 54 * w"
    using err(2,3) w by (simp_all add: mult_right_mono)
  have "\<bar>binary64 p - x\<bar> \<le> w / 2 ^ 51 + 2 * t"
    using e1 e2 tw x0 xw err(2) by simp
  then show ?thesis unfolding err(4) by (simp add: p_def a_def)
qed

lemma fmt_err:
  "\<bar>fmt (binary64 P) - P\<bar> \<le> 1 / 200 + (\<bar>P\<bar> + 1) / 2 ^ 50"
proof -
  define t :: real where "t = 1 / 2 ^ 1075"
  note err = binary64_err_tiny [OF t_def]
  define v where "v = binary64 P"
  define c where "c = binary64 (v * 100)"
  define k where "k = math_round c"
  define e where "e = binary64 (of_int k / 100)"
  define A where "A = \<bar>P\<bar>"
  define B where "B = \<bar>v\<bar>"
  define C where "C = \<bar>c\<bar>"
  define K where "K = \<bar>real_of_int k\<bar>"
  define D where "D = \<bar>c - v * 100\<bar>"
  define E where "E = \<bar>e - P\<bar>"
  define T1 where "T1 = \<bar>e - of_int k / 100\<bar>"
  define T2 where "T2 = \<bar>of_int k / 100 - c / 100\<bar>"
  define T3 where "T3 = \<bar>c / 100 - v\<bar>"
  define T4 where "T4 = \<bar>v - P\<bar>"
  have d100: "\<bar>y / 100\<bar> = \<bar>y\<bar> / 100" for y :: real by simp
  have e1: "T4 \<le> A / 2 ^ 53 + t" unfolding v_def T4_def A_def by (rule err(1))
  have "D \<le> \<bar>v * 100\<bar> / 2 ^ 53 + t" unfolding D_def c_def by (rule err(1))
  then have e2: "D \<le> B * 100 / 2 ^ 53 + t" by (simp add: abs_mult B_def)
  have e3: "\<bar>of_int k - c\<bar> \<le> 1 / 2" unfolding k_def math_round_def by linarith
  have "T1 \<le> \<bar>of_int k / 100\<bar> / 2 ^ 53 + t" unfolding T1_def e_def by (rule err(1))
  then have e4: "T1 \<le> K / 100 / 2 ^ 53 + t" unfolding d100 K_def .
  have b1: "B \<le> A + T4" unfolding B_def A_def T4_def by linarith
  have b2: "C \<le> B * 100 + D" unfolding C_def B_def D_def by linarith
  have b3: "K \<le> C + 1 / 2" using e3 unfolding K_def C_def by linarith
  have "of_int k / 100 - c / 100 = (of_int k - c) / 100"
    by (simp only: diff_divide_distrib)
  then have "T2 = \<bar>of_int k - c\<bar> / 100" unfolding T2_def by (simp only: d100)
  with e3 have t2: "T2 \<le> 1 / 200" by simp
  have "c / 100 - v = (c - v * 100) / 100" by simp
  then have t3: "T3 = D / 100" unfolding T3_def D_def by (simp only: d100)
  have tri: "E \<le> T1 + T2 + T3 + T4" unfolding E_def T1_def T2_def T3_def T4_def by linarith
  have A0: "0 \<le> A" by (simp add: A_def)
  have "E \<le> 1 / 200 + (A + 1) / 2 ^ 50"
    using tri e1 e2 e4 b1 b2 b3 t2 A0 err(2,3) unfolding t3 by (simp; argo)
  then show ?thesis by (simp add: fmt_def E_def e_def k_def c_def v_def A_def)
qed

section \<open>Properties of the coordinate transforms\<close>

lemma clamp_bounds:
  fixes v w :: real
  assumes "0 < w"
  shows "0 \<le> max 0 (min v w)" and "max 0 (min v w) \<le> w"
  using assms by auto

lemma min_max_div: "0 < (w::real) \<Longrightarrow> min a b / w \<le> max a b / w"
  by (intro divide_right_mono) auto

lemma min_div_nonneg: "0 < (w::real) \<Longrightarrow> 0 \<le> a \<Longrightarrow> 0 \<le> b \<Longrightarrow> 0 \<le> min a b / w"
  by simp

lemma max_div_le_one: "0 < (w::real) \<Longrightarrow> a \<le> w \<Longrightarrow> b \<le> w \<Longrightarrow> max a b / w \<le> 1"
  by simp



text \<open>
  The program's quotients are the exact ones rounded, and rounding is monotone and
  keeps 0 and 1: the rectangle the program computes lies in the unit box as well.
\<close>

lemma normalizeRect64_rounds:
  "normalizeRect64 r w h =
     \<lparr>x1n = binary64 (x1n (normalizeRect r w h)), y1n = binary64 (y1n (normalizeRect r w h)),
      x2n = binary64 (x2n (normalizeRect r w h)), y2n = binary64 (y2n (normalizeRect r w h))\<rparr>"
  by (simp add: normalizeRect64_def normalizeRect_def Let_def)

lemma binary64_unit:
  assumes "0 \<le> a" and "a \<le> b" and "b \<le> 1"
  shows "0 \<le> binary64 a" and "binary64 a \<le> binary64 b" and "binary64 b \<le> 1"
proof -
  show "0 \<le> binary64 a" using assms(1) by (rule binary64_nonneg)
  show "binary64 a \<le> binary64 b" using assms(1,2) by (rule binary64_mono)
  have "binary64 b \<le> binary64 1" using assms by (intro binary64_mono) simp_all
  then show "binary64 b \<le> 1" by (simp add: binary64_1)
qed

lemma normalizeRect64_unit_box:
  assumes "0 < w" and "0 < h"
  shows "0 \<le> x1n (normalizeRect64 r w h)"
    and "x1n (normalizeRect64 r w h) \<le> x2n (normalizeRect64 r w h)"
    and "x2n (normalizeRect64 r w h) \<le> 1"
    and "0 \<le> y1n (normalizeRect64 r w h)"
    and "y1n (normalizeRect64 r w h) \<le> y2n (normalizeRect64 r w h)"
    and "y2n (normalizeRect64 r w h) \<le> 1"
proof -
  let ?a = "max 0 (min (x1 r) w)" and ?b = "max 0 (min (x2 r) w)"
  let ?c = "max 0 (min (y1 r) h)" and ?d = "max 0 (min (y2 r) h)"
  have x: "0 \<le> min ?a ?b / w" "min ?a ?b / w \<le> max ?a ?b / w" "max ?a ?b / w \<le> 1"
    using \<open>0 < w\<close> clamp_bounds [of w]
    by (intro min_div_nonneg min_max_div max_div_le_one; simp)+
  have y: "0 \<le> min ?c ?d / h" "min ?c ?d / h \<le> max ?c ?d / h" "max ?c ?d / h \<le> 1"
    using \<open>0 < h\<close> clamp_bounds [of h]
    by (intro min_div_nonneg min_max_div max_div_le_one; simp)+
  show "0 \<le> x1n (normalizeRect64 r w h)"
    and "x1n (normalizeRect64 r w h) \<le> x2n (normalizeRect64 r w h)"
    and "x2n (normalizeRect64 r w h) \<le> 1"
    unfolding normalizeRect64_def Let_def normRect.simps
    by (rule binary64_unit [OF x])+
  show "0 \<le> y1n (normalizeRect64 r w h)"
    and "y1n (normalizeRect64 r w h) \<le> y2n (normalizeRect64 r w h)"
    and "y2n (normalizeRect64 r w h) \<le> 1"
    unfolding normalizeRect64_def Let_def normRect.simps
    by (rule binary64_unit [OF y])+
qed


text \<open>The doubles of the round trip of the rectangle \<open>(110, 10, 10, 60)\<close> on an
  \<open>800 \<times> 600\<close> surface.\<close>

lemma roundtrip_values:
  "binary64 (binary64 (1 / 80) * 800) = 10"
  "binary64 (binary64 (11 / 80) * 800) = 7740561859543041 / 2 ^ 46"
  "binary64 (binary64 (1 / 60) * 600) = 10"
  "binary64 (binary64 (1 / 10) * 600) = 60"
proof -
  have a: "binary64 (1 / 80) = 3602879701896397 / 2 ^ 58"
    by (simp add: binary64_eval [of _ 59] round_even_def Let_def)
  have b: "binary64 (11 / 80) = 2476979795053773 / 2 ^ 54"
    by (simp add: binary64_eval [of _ 55] round_even_def Let_def)
  have c: "binary64 (1 / 60) = 4803839602528529 / 2 ^ 58"
    by (simp add: binary64_eval [of _ 58] round_even_def Let_def)
  have d: "binary64 (1 / 10) = 3602879701896397 / 2 ^ 55"
    by (simp add: binary64_eval [of _ 56] round_even_def Let_def)
  show "binary64 (binary64 (1 / 80) * 800) = 10"
    unfolding a by (simp add: binary64_eval [of _ 49] round_even_def Let_def)
  show "binary64 (binary64 (11 / 80) * 800) = 7740561859543041 / 2 ^ 46"
    unfolding b by (simp add: binary64_eval [of _ 46] round_even_def Let_def)
  show "binary64 (binary64 (1 / 60) * 600) = 10"
    unfolding c by (simp add: binary64_eval [of _ 49] round_even_def Let_def)
  show "binary64 (binary64 (1 / 10) * 600) = 60"
    unfolding d by (simp add: binary64_eval [of _ 47] round_even_def Let_def)
qed

text \<open>
  Claim C3. For every pixel rectangle whose coordinates lie within the surface, and
  every positive surface width and height (up to \<open>2 ^ 1023\<close>, so that no product
  overflows; the program passes the width and height of a canvas, which are below
  \<open>2 ^ 32\<close>), denormalizeRect after normalizeRect, as the program evaluates them in
  doubles, gives the rectangle back in minimum and maximum order within a tolerance:
  each coordinate differs from the original one by at most \<open>W / 2 ^ 51 + 2 ^ (- 1074)\<close>,
  respectively \<open>H / 2 ^ 51 + 2 ^ (- 1074)\<close>, which is four units of roundoff relative
  to the surface size. The law needs no positive width or height of the rectangle.
\<close>

theorem normalize_denormalize_tolerance:
  assumes "0 < w" and "w \<le> 2 ^ 1023" and "0 < h" and "h \<le> 2 ^ 1023"
    and "0 \<le> x1 r" and "x1 r \<le> w" and "0 \<le> x2 r" and "x2 r \<le> w"
    and "0 \<le> y1 r" and "y1 r \<le> h" and "0 \<le> y2 r" and "y2 r \<le> h"
  shows "\<bar>x1 (denormalizeRect (normalizeRect64 r w h) w h) - min (x1 r) (x2 r)\<bar>
           \<le> w / 2 ^ 51 + 1 / 2 ^ 1074
       \<and> \<bar>y1 (denormalizeRect (normalizeRect64 r w h) w h) - min (y1 r) (y2 r)\<bar>
           \<le> h / 2 ^ 51 + 1 / 2 ^ 1074
       \<and> \<bar>x2 (denormalizeRect (normalizeRect64 r w h) w h) - max (x1 r) (x2 r)\<bar>
           \<le> w / 2 ^ 51 + 1 / 2 ^ 1074
       \<and> \<bar>y2 (denormalizeRect (normalizeRect64 r w h) w h) - max (y1 r) (y2 r)\<bar>
           \<le> h / 2 ^ 51 + 1 / 2 ^ 1074"
proof -
  have cx: "max 0 (min (x1 r) w) = x1 r" "max 0 (min (x2 r) w) = x2 r"
    and cy: "max 0 (min (y1 r) h) = y1 r" "max 0 (min (y2 r) h) = y2 r"
    using assms by simp_all
  have d: "denormalizeRect (normalizeRect64 r w h) w h =
             \<lparr>x1 = binary64 (binary64 (min (x1 r) (x2 r) / w) * w),
              y1 = binary64 (binary64 (min (y1 r) (y2 r) / h) * h),
              x2 = binary64 (binary64 (max (x1 r) (x2 r) / w) * w),
              y2 = binary64 (binary64 (max (y1 r) (y2 r) / h) * h)\<rparr>"
    unfolding denormalizeRect_def normalizeRect64_def Let_def cx cy by simp
  have "0 \<le> min (x1 r) (x2 r)" "min (x1 r) (x2 r) \<le> w"
       "0 \<le> max (x1 r) (x2 r)" "max (x1 r) (x2 r) \<le> w"
       "0 \<le> min (y1 r) (y2 r)" "min (y1 r) (y2 r) \<le> h"
       "0 \<le> max (y1 r) (y2 r)" "max (y1 r) (y2 r) \<le> h"
    using assms by simp_all
  then show ?thesis
    unfolding d rect.simps
    using roundtrip_coord [OF \<open>0 < w\<close>] roundtrip_coord [OF \<open>0 < h\<close>] by blast
qed

text \<open>
  A drag from the top right to the bottom left of a \<open>100 \<times> 50\<close> box on an
  \<open>800 \<times> 600\<close> surface: three coordinates come back exactly, and the right edge comes
  back as the double after 110, which is \<open>110.00000000000001\<close>.
\<close>

theorem normalize_denormalize_tolerance_witness:
  "denormalizeRect (normalizeRect64 \<lparr>x1 = 110, y1 = 10, x2 = 10, y2 = 60\<rparr> 800 600) 800 600
     = \<lparr>x1 = 10, y1 = 10, x2 = 7740561859543041 / 2 ^ 46, y2 = 60\<rparr>
   \<and> (7740561859543041::real) / 2 ^ 46 - 110 = 1 / 2 ^ 46
   \<and> \<bar>(7740561859543041::real) / 2 ^ 46 - max 110 10\<bar> \<le> 800 / 2 ^ 51 + 1 / 2 ^ 1074"
  using normalize_denormalize_tolerance [of 800 600 "\<lparr>x1 = 110, y1 = 10, x2 = 10, y2 = 60\<rparr>"]
  by (simp add: denormalizeRect_def normalizeRect64_def roundtrip_values)

section \<open>The payload builder of PDFSanitizerApp1.jsx in closed form\<close>

lemma enumerate_map_Pair:
  "enumerate k (map (Pair p) rs) = map (\<lambda>(i, r). (i, p, r)) (enumerate k rs)"
  by (induction rs arbitrary: k) simp_all

lemma rect_loop_step:
  "rect_loop p (doc ! (p - 1)) (r # rs) (R, U, k) =
     rect_loop p (doc ! (p - 1)) rs
       (R @ [payloadOf doc (k, p, r)],
        U @ (if hasLogoFile (k, p, r) then [uploadOf (k, p, r)] else []),
        Suc k)"
  by (cases "logoFile r")
     (simp_all add: Let_def normRectToPdfPoints_def payloadOf_def uploadOf_def hasLogoFile_def)

lemma rect_loop_entries:
  "rect_loop p (doc ! (p - 1)) rs (R, U, k) =
     (R @ map (payloadOf doc) (enumerate k (map (Pair p) rs)),
      U @ map uploadOf (filter hasLogoFile (enumerate k (map (Pair p) rs))),
      k + length rs)"
proof (induction rs arbitrary: R U k)
  case Nil
  show ?case by simp
next
  case (Cons r rs)
  show ?case
    unfolding rect_loop_step Cons.IH by simp
qed

lemma page_loop_entries:
  "page_loop doc prs ps (R, U, k) =
     (R @ map (payloadOf doc) (enumerate k (concat (map (\<lambda>p. map (Pair p) (rectsOf prs p)) ps))),
      U @ map uploadOf (filter hasLogoFile
            (enumerate k (concat (map (\<lambda>p. map (Pair p) (rectsOf prs p)) ps)))),
      k + length (concat (map (\<lambda>p. map (Pair p) (rectsOf prs p)) ps)))"
proof (induction ps arbitrary: R U k)
  case Nil
  show ?case by simp
next
  case (Cons p ps)
  show ?case
    unfolding page_loop.simps rect_loop_entries Cons.IH
    by (simp add: enumerate_append_eq add.assoc)
qed

lemma buildPayloadAndLogos_entries:
  assumes "pdfDoc s = Some doc"
  shows "buildPayloadAndLogos s =
           (map (payloadOf doc) (enumerate 0 (storeEntries doc (pageRects s))),
            map uploadOf (filter hasLogoFile (enumerate 0 (storeEntries doc (pageRects s)))))"
  using assms
  by (simp add: buildPayloadAndLogos_def page_loop_entries storeEntries_def)


lemma letterDrag_commit:
  "handlePointerUp (letterDrag (a, b)) =
     (letterDrag (a, b))\<lparr>isDrawing := False,
        pageRects := (if x1n (normalizeRect64 \<lparr>x1 = a, y1 = b, x2 = 918, y2 = 1188\<rparr> 918 1188)
                           \<noteq> x2n (normalizeRect64 \<lparr>x1 = a, y1 = b, x2 = 918, y2 = 1188\<rparr> 918 1188)
                         \<and> y1n (normalizeRect64 \<lparr>x1 = a, y1 = b, x2 = 918, y2 = 1188\<rparr> 918 1188)
                           \<noteq> y2n (normalizeRect64 \<lparr>x1 = a, y1 = b, x2 = 918, y2 = 1188\<rparr> 918 1188)
                      then [1 \<mapsto> [\<lparr>nr = normalizeRect64 \<lparr>x1 = a, y1 = b, x2 = 918, y2 = 1188\<rparr> 918 1188,
                                   kind = ''redact'', logoFile = None\<rparr>]]
                      else Map.empty)\<rparr>"
  by (simp add: handlePointerUp_def letterDrag_def dragRect_def Let_def rectsOf_def)

lemma full_state:
  "handlePointerUp (letterDrag (0, 0)) =
     (letterDrag (0, 0))\<lparr>isDrawing := False,
        pageRects := [1 \<mapsto> [\<lparr>nr = \<lparr>x1n = 0, y1n = 0, x2n = 1, y2n = 1\<rparr>,
                              kind = ''redact'', logoFile = None\<rparr>]]\<rparr>"
  by (simp add: letterDrag_commit normalizeRect64_def binary64_0 binary64_1)

text \<open>
  The doubles of the drag from pixel 11 on the \<open>960\<close> pixels wide surface of the
  \<open>600\<close> points wide page: the quotient \<open>11 / 960\<close> rounds down, its product with 600
  is the double before \<open>6.875\<close>, which is \<open>6.874999999999999\<close>, and \<^verbatim>\<open>fmt\<close> gives
  the double \<open>6.87\<close>.
\<close>

lemma tie_values:
  "binary64 (11 / 960) = 6605279453476727 / 2 ^ 59"
  "binary64 (binary64 (11 / 960) * 600) = 7740561859543039 / 2 ^ 50"
  "fmt (binary64 (binary64 (11 / 960) * 600)) = binary64 (687 / 100)"
  "binary64 (687 / 100) = 7734932360008827 / 2 ^ 50"
proof -
  show a: "binary64 (11 / 960) = 6605279453476727 / 2 ^ 59"
    by (simp add: binary64_eval [of _ 59] round_even_def Let_def)
  show b: "binary64 (binary64 (11 / 960) * 600) = 7740561859543039 / 2 ^ 50"
    unfolding a by (simp add: binary64_eval [of _ 50] round_even_def Let_def)
  have c: "binary64 (7740561859543039 / 2 ^ 50 * 100) = 6047313952767999 / 2 ^ 43"
    by (simp add: binary64_eval [of _ 43] round_even_def Let_def)
  have d: "math_round (6047313952767999 / 2 ^ 43) = 687"
    by (simp add: math_round_def)
  show "fmt (binary64 (binary64 (11 / 960) * 600)) = binary64 (687 / 100)"
    unfolding fmt_def b c d by simp
  show "binary64 (687 / 100) = 7734932360008827 / 2 ^ 50"
    by (simp add: binary64_eval [of _ 50] round_even_def Let_def)
qed

lemma fmt_values: "fmt 0 = 0" "fmt 600 = 600" "fmt 612 = 612" "fmt 792 = 792" "fmt 800 = 800"
  by (simp_all add: fmt_def math_round_def binary64_0 binary64_numeral)

lemma tie_state:
  "handlePointerUp tieDrag =
     tieDrag\<lparr>isDrawing := False,
        pageRects := [1 \<mapsto> [\<lparr>nr = \<lparr>x1n = binary64 (11 / 960), y1n = 0, x2n = 1, y2n = 1\<rparr>,
                              kind = ''redact'', logoFile = None\<rparr>]]\<rparr>"
  by (simp add: handlePointerUp_def tieDrag_def dragRect_def Let_def rectsOf_def
        normalizeRect64_def binary64_0 binary64_1 tie_values(1))

text \<open>
  Claim C4, amended. For every rectangle in the store of a loaded document, the
  bounding box in points emitted at submission is the normalized coordinates times the
  page's width and height at scale 1, each product rounded to a double and then to two
  decimals by \<^verbatim>\<open>fmt\<close>; every emitted coordinate is within \<open>0.005\<close>, and the roundoff
  of three operations, of the exact product; and the payload does not depend on the
  zoom or on the size of the overlay. The products are taken below \<open>2 ^ 1000\<close>, so
  that \<^verbatim>\<open>fmt\<close> does not overflow. For a \<open>612 \<times> 792\<close> page shown at scale \<open>1.5\<close>, a
  rectangle over the full surface is emitted as \<open>[0, 0, 612, 792]\<close> (the witness).
\<close>

theorem bbox_pts_rounded_unscaled:
  assumes "pdfDoc s = Some doc"
    and "i < length (storeEntries doc (pageRects s))"
    and "\<forall>c \<in> set (pointsOf doc (storeEntries doc (pageRects s) ! i)). \<bar>c\<bar> \<le> 2 ^ 1000"
  shows "i < length (fst (buildPayloadAndLogos s))
       \<and> bbox_pts (fst (buildPayloadAndLogos s) ! i)
           = map (\<lambda>c. fmt (binary64 c)) (pointsOf doc (storeEntries doc (pageRects s) ! i))
       \<and> (\<forall>k < 4. \<bar>bbox_pts (fst (buildPayloadAndLogos s) ! i) ! k
                      - pointsOf doc (storeEntries doc (pageRects s) ! i) ! k\<bar>
                    \<le> 1 / 200 + (\<bar>pointsOf doc (storeEntries doc (pageRects s) ! i) ! k\<bar> + 1) / 2 ^ 50)
       \<and> buildPayloadAndLogos (s\<lparr>zoom := z, overlayCanvas := oc\<rparr>) = buildPayloadAndLogos s"
proof -
  obtain p r where e: "storeEntries doc (pageRects s) ! i = (p, r)"
    by (cases "storeEntries doc (pageRects s) ! i")
  have "fst (buildPayloadAndLogos s) ! i = payloadOf doc (i, p, r)"
    using assms(1,2) e by (simp add: buildPayloadAndLogos_entries nth_enumerate_eq)
  then have b: "bbox_pts (fst (buildPayloadAndLogos s) ! i)
                  = map (\<lambda>c. fmt (binary64 c)) (pointsOf doc (p, r))"
    by (simp add: payloadOf_def pointsOf_def)
  have l: "i < length (fst (buildPayloadAndLogos s))"
    using assms(1,2) by (simp add: buildPayloadAndLogos_entries)
  have z: "buildPayloadAndLogos (s\<lparr>zoom := z, overlayCanvas := oc\<rparr>) = buildPayloadAndLogos s"
    by (simp add: buildPayloadAndLogos_def split: option.split)
  have len: "length (pointsOf doc (p, r)) = 4" by (simp add: pointsOf_def)
  have "\<bar>map (\<lambda>c. fmt (binary64 c)) (pointsOf doc (p, r)) ! k - pointsOf doc (p, r) ! k\<bar>
          \<le> 1 / 200 + (\<bar>pointsOf doc (p, r) ! k\<bar> + 1) / 2 ^ 50" if "k < 4" for k
    using that len fmt_err [of "pointsOf doc (p, r) ! k"] by simp
  with b l z show ?thesis unfolding e by simp
qed

text \<open>The full-surface rectangle of the scenario.\<close>

theorem bbox_pts_rounded_unscaled_witness:
  "pdfDoc (handlePointerUp (letterDrag (0, 0))) = Some [\<lparr>widthPts = 612, heightPts = 792, rotate = 0\<rparr>]
   \<and> storeEntries [\<lparr>widthPts = 612, heightPts = 792, rotate = 0\<rparr>]
         (pageRects (handlePointerUp (letterDrag (0, 0))))
       = [(1, \<lparr>nr = \<lparr>x1n = 0, y1n = 0, x2n = 1, y2n = 1\<rparr>, kind = ''redact'', logoFile = None\<rparr>)]
   \<and> bbox_pts (fst (buildPayloadAndLogos (handlePointerUp (letterDrag (0, 0)))) ! 0)
       = [0, 0, 612, 792]"
proof -
  let ?doc = "[\<lparr>widthPts = 612, heightPts = 792, rotate = 0\<rparr>]"
  let ?s = "handlePointerUp (letterDrag (0, 0))"
  note t = bbox_pts_rounded_unscaled [of ?s ?doc 0]
  have doc: "pdfDoc ?s = Some ?doc"
    unfolding full_state by (simp add: letterDrag_def)
  have e: "storeEntries ?doc (pageRects ?s)
             = [(1, \<lparr>nr = \<lparr>x1n = 0, y1n = 0, x2n = 1, y2n = 1\<rparr>, kind = ''redact'', logoFile = None\<rparr>)]"
    unfolding full_state by (simp add: letterDrag_def storeEntries_def rectsOf_def)
  have p: "pointsOf ?doc (storeEntries ?doc (pageRects ?s) ! 0) = [0, 0, 612, 792]"
    unfolding e by (simp add: pointsOf_def)
  have i: "0 < length (storeEntries ?doc (pageRects ?s))" unfolding e by simp
  have r: "\<forall>c \<in> set (pointsOf ?doc (storeEntries ?doc (pageRects ?s) ! 0)). \<bar>c\<bar> \<le> 2 ^ 1000"
    unfolding p by simp
  from t [OF doc i r] have "bbox_pts (fst (buildPayloadAndLogos ?s) ! 0)
      = map (\<lambda>c. fmt (binary64 c)) (pointsOf ?doc (storeEntries ?doc (pageRects ?s) ! 0))"
    by blast
  then have "bbox_pts (fst (buildPayloadAndLogos ?s) ! 0) = [0, 0, 612, 792]"
    unfolding p by (simp add: binary64_0 binary64_numeral fmt_values)
  with doc e show ?thesis by simp
qed

text \<open>
  The claim as stated, with the product itself, fails for the drag from pixel 11 on
  the \<open>960\<close> pixels wide surface of a \<open>600\<close> points wide page: the stored coordinate
  is the double nearest to \<open>11 / 960\<close>, its product with 600 is not \<open>6.87\<close>, also when
  rounded to a double, and \<open>6.87\<close> is emitted.
\<close>

theorem bbox_pts_exact_counterexample:
  "rectsForPage (handlePointerUp tieDrag)
     = [\<lparr>nr = \<lparr>x1n = binary64 (11 / 960), y1n = 0, x2n = 1, y2n = 1\<rparr>,
         kind = ''redact'', logoFile = None\<rparr>]
   \<and> bbox_pts (fst (buildPayloadAndLogos (handlePointerUp tieDrag)) ! 0)
       = [binary64 (687 / 100), 0, 600, 800]
   \<and> binary64 (687 / 100) = 7734932360008827 / 2 ^ 50
   \<and> binary64 (11 / 960) * 600 = 3963167672086036200 / 2 ^ 59
   \<and> binary64 (binary64 (11 / 960) * 600) = 7740561859543039 / 2 ^ 50
   \<and> binary64 (687 / 100) \<noteq> binary64 (11 / 960) * 600
   \<and> binary64 (687 / 100) \<noteq> binary64 (binary64 (11 / 960) * 600)"
proof -
  have a: "rectsForPage (handlePointerUp tieDrag)
     = [\<lparr>nr = \<lparr>x1n = binary64 (11 / 960), y1n = 0, x2n = 1, y2n = 1\<rparr>,
         kind = ''redact'', logoFile = None\<rparr>]"
    unfolding tie_state by (simp add: tieDrag_def rectsForPage_def rectsOf_def)
  have b: "bbox_pts (fst (buildPayloadAndLogos (handlePointerUp tieDrag)) ! 0)
       = [binary64 (687 / 100), 0, 600, 800]"
    unfolding tie_state
    by (simp add: tieDrag_def buildPayloadAndLogos_def rectsOf_def Let_def
          normRectToPdfPoints_def tie_values(3) fmt_values binary64_0 binary64_numeral)
  have c: "binary64 (11 / 960) * 600 = 3963167672086036200 / 2 ^ 59"
    unfolding tie_values(1) by simp
  have d: "binary64 (687 / 100) \<noteq> binary64 (11 / 960) * 600"
    unfolding tie_values(1,4) by simp
  have e: "binary64 (687 / 100) \<noteq> binary64 (binary64 (11 / 960) * 600)"
    unfolding tie_values(2,4) by simp
  from a b c d e tie_values(2,4) show ?thesis by blast
qed

section \<open>Commit and clearing in the annotation store\<close>

lemma normalizeRect64_zero_width:
  "x1 r = x2 r \<Longrightarrow> x1n (normalizeRect64 r w h) = x2n (normalizeRect64 r w h)"
  by (simp add: normalizeRect64_def Let_def)

lemma normalizeRect64_zero_height:
  "y1 r = y2 r \<Longrightarrow> y1n (normalizeRect64 r w h) = y2n (normalizeRect64 r w h)"
  by (simp add: normalizeRect64_def Let_def)

lemma handlePointerUp_degenerate:
  assumes "\<And>w h. overlayCanvas s = Some (w, h) \<Longrightarrow>
             x1n (normalizeRect64 (dragRect s) w h) = x2n (normalizeRect64 (dragRect s) w h)
           \<or> y1n (normalizeRect64 (dragRect s) w h) = y2n (normalizeRect64 (dragRect s) w h)"
  shows "pageRects (handlePointerUp s) = pageRects s"
proof (cases "overlayCanvas s")
  case None
  then show ?thesis by (simp add: handlePointerUp_def Let_def)
next
  case (Some wh)
  obtain w h where wh: "wh = (w, h)" by (cases wh)
  have d: "dragRect (s\<lparr>isDrawing := False\<rparr>) = dragRect s" by (simp add: dragRect_def)
  from assms [of w h] Some wh show ?thesis
    by (auto simp add: handlePointerUp_def Let_def d)
qed

text \<open>
  In PDFSanitizerApp1.jsx a pointer-up whose pixel rectangle has width 0 or height 0,
  or whose normalized width or height is 0, leaves the store as it is.
\<close>

lemma handlePointerUp_zero_area:
  assumes "x1 (dragRect s) = x2 (dragRect s) \<or> y1 (dragRect s) = y2 (dragRect s)
      \<or> (\<forall>w h. overlayCanvas s = Some (w, h) \<longrightarrow>
            x1n (normalizeRect64 (dragRect s) w h) = x2n (normalizeRect64 (dragRect s) w h)
          \<or> y1n (normalizeRect64 (dragRect s) w h) = y2n (normalizeRect64 (dragRect s) w h))"
  shows "pageRects (handlePointerUp s) = pageRects s"
    and "length (rectsForPage (handlePointerUp s)) = length (rectsForPage s)"
proof -
  have pn: "pageNumber (handlePointerUp s) = pageNumber s"
    by (simp add: handlePointerUp_def Let_def split: option.split prod.split)
  show "pageRects (handlePointerUp s) = pageRects s"
    using assms normalizeRect64_zero_width [of "dragRect s"]
      normalizeRect64_zero_height [of "dragRect s"]
    by (intro handlePointerUp_degenerate) blast
  then show "length (rectsForPage (handlePointerUp s)) = length (rectsForPage s)"
    by (simp add: rectsForPage_def pn)
qed

text \<open>
  In PDFSanitizerApp.jsx a pointer-up that ends a drag with a draft narrower or lower
  than 4 pixels drops the draft, so a confirmation that follows it commits nothing.
\<close>

lemma onPointerUp_small_draft:
  assumes "drawingRef a" and "draft a = Some d" and "d_w d < 4 \<or> d_h d < 4"
  shows "rects (onPointerUp a) = rects a" and "draft (onPointerUp a) = None"
    and "rects (confirmDraft ident (onPointerUp a)) = rects a"
  using assms by (auto simp add: onPointerUp_def confirmDraft_def Let_def)

text \<open>
  The store is keyed by page number alone. With document 1 selected, page 1 lists a
  rectangle; after \<^verbatim>\<open>clearPageRects\<close> on page 1 of document 0 the same selection
  lists none.
\<close>

theorem clearPageRects_other_document_counterexample:
  "rectsForPage (sharedPage\<lparr>activeFileIdx := 1\<rparr>)
     = [\<lparr>nr = \<lparr>x1n = 0, y1n = 0, x2n = 1, y2n = 1\<rparr>, kind = ''redact'', logoFile = None\<rparr>]
   \<and> activeFileIdx sharedPage = 0
   \<and> rectsForPage ((clearPageRects sharedPage)\<lparr>activeFileIdx := 1\<rparr>) = []"
  by (simp add: sharedPage_def clearPageRects_def rectsForPage_def rectsOf_def)

text \<open>
  Claim C9, amended. \<^verbatim>\<open>clearPageRects\<close> empties the list of the current page number
  and changes nothing else: the list of every other page number is unchanged, and so
  is every other part of the state. The lists are shared by all documents: whatever
  document is selected, the cleared page number lists nothing and every other page
  number lists what it did.
\<close>

theorem clearPageRects_frame:
  "rectsForPage (clearPageRects s) = []
   \<and> (\<forall>p. p \<noteq> pageNumber s \<longrightarrow> pageRects (clearPageRects s) p = pageRects s p)
   \<and> (\<forall>d p. rectsForPage ((clearPageRects s)\<lparr>activeFileIdx := d, pageNumber := p\<rparr>)
          = (if p = pageNumber s then []
             else rectsForPage (s\<lparr>activeFileIdx := d, pageNumber := p\<rparr>)))
   \<and> clearPageRects s = s\<lparr>pageRects := pageRects (clearPageRects s)\<rparr>"
  by (simp add: clearPageRects_def rectsForPage_def rectsOf_def)

text \<open>Page 2 keeps its rectangle when page 1 is cleared.\<close>

theorem clearPageRects_frame_witness:
  "rectsForPage (clearPageRects sharedPage) = []
   \<and> (2::nat) \<noteq> pageNumber sharedPage
   \<and> pageRects (clearPageRects sharedPage) 2 = pageRects sharedPage 2
   \<and> pageRects sharedPage 2 = Some [\<lparr>nr = \<lparr>x1n = 0, y1n = 0, x2n = 1 / 2, y2n = 1 / 2\<rparr>,
                            kind = ''redact'', logoFile = None\<rparr>]"
  using clearPageRects_frame [of sharedPage]
  by (simp add: sharedPage_def)

section \<open>The payload builder of PDFSanitizerApp.jsx\<close>

lemma zones_loop_step:
  "zones_loop acts (r # rs) (Z, M, W) =
     zones_loop acts rs
       (Z @ [zoneOf r],
        (case resolvedKey acts r of None \<Rightarrow> M | Some k \<Rightarrow> M(length Z \<mapsto> k)),
        W @ (if unresolvedLogo acts r then [logoWarning] else []))"
  by (simp add: Let_def resolvedKey_def unresolvedLogo_def split: option.split)

lemma zones_loop_zones:
  "fst (zones_loop acts rs (Z, M, W)) = Z @ map zoneOf rs"
proof (induction rs arbitrary: Z M W)
  case Nil
  show ?case by simp
next
  case (Cons r rs)
  show ?case unfolding zones_loop_step Cons.IH by simp
qed

lemma zones_loop_warns:
  "snd (snd (zones_loop acts rs (Z, M, W))) =
     W @ map (\<lambda>r. logoWarning) (filter (unresolvedLogo acts) rs)"
proof (induction rs arbitrary: Z M W)
  case Nil
  show ?case by simp
next
  case (Cons r rs)
  show ?case unfolding zones_loop_step Cons.IH by simp
qed

lemma zones_loop_map:
  "fst (snd (zones_loop acts rs (Z, M, W))) k =
     (if length Z \<le> k \<and> k < length Z + length rs
      then (case resolvedKey acts (rs ! (k - length Z)) of None \<Rightarrow> M k | Some v \<Rightarrow> Some v)
      else M k)"
proof (induction rs arbitrary: Z M W)
  case Nil
  show ?case by auto
next
  case (Cons r rs)
  show ?case
    unfolding zones_loop_step Cons.IH
    by (auto simp add: nth_Cons' split: option.split)
qed

lemma image_map_loop_miss:
  "\<forall>u \<in> set us. up_rect_idx u \<noteq> k \<Longrightarrow> image_map_loop us m k = m k"
  by (induction us arbitrary: m) simp_all

lemma image_map_loop_hit:
  "image_map_loop us m k = Some v \<Longrightarrow>
     m k = Some v \<or> (\<exists>u \<in> set us. up_rect_idx u = k \<and> field u = v)"
proof (induction us arbitrary: m)
  case Nil
  then show ?case by simp
next
  case (Cons u us)
  from Cons.IH [OF Cons.prems [simplified]] show ?case
    by (auto split: if_splits)
qed

lemma buildZones_zones: "fst (buildZones s) = map zoneOf (rects s)"
  by (simp add: buildZones_def zones_loop_zones)

lemma buildZones_warns:
  "snd (snd (buildZones s)) = map (\<lambda>r. logoWarning) (filter (unresolvedLogo (rectActions s)) (rects s))"
  by (simp add: buildZones_def zones_loop_warns)

lemma buildZones_map:
  "fst (snd (buildZones s)) k =
     (if k < length (rects s) then resolvedKey (rectActions s) (rects s ! k) else None)"
  by (simp add: buildZones_def zones_loop_map split: option.split)

lemma unresolvedLogo_no_key: "unresolvedLogo acts r \<Longrightarrow> resolvedKey acts r = None"
  by (auto simp add: resolvedKey_def unresolvedLogo_def split: option.splits)

lemma buildImageMapForTest_loop_map:
  "buildImageMapForTest_loop actions ids idx M k =
     (if idx \<le> k \<and> k < idx + length ids
      then (case actions (ids ! (k - idx)) of
              Some (act, Some nm) \<Rightarrow> if act = ''logo'' \<and> nm \<noteq> [] then Some nm else M k
            | _ \<Rightarrow> M k)
      else M k)"
proof (induction ids arbitrary: idx M)
  case Nil
  show ?case by auto
next
  case (Cons i ids)
  show ?case
    unfolding buildImageMapForTest_loop.simps Cons.IH
    by (auto simp add: nth_Cons' split: option.split prod.split)
qed

text \<open>
  Claim C7. In every submission build of \<^verbatim>\<open>runSanitization\<close>, a rectangle whose
  action is \<^verbatim>\<open>logo\<close> and whose asset key is missing or empty still has its zone at
  its position in the zone list, has no entry in the asset map, and is reported by a
  warning; the build is total, so with a file selected the submission always has its
  payload. The test helper \<^verbatim>\<open>buildImageMapForTest\<close> omits the entry likewise.
\<close>

theorem unresolved_logo_zone_kept:
  "(0 < nFiles \<longrightarrow> runSanitization nFiles s = Some (buildZones s))
   \<and> length (fst (buildZones s)) = length (rects s)
   \<and> length (snd (snd (buildZones s))) = length (filter (unresolvedLogo (rectActions s)) (rects s))
   \<and> (\<forall>k < length (rects s). unresolvedLogo (rectActions s) (rects s ! k) \<longrightarrow>
          fst (buildZones s) ! k = zoneOf (rects s ! k)
        \<and> fst (snd (buildZones s)) k = None
        \<and> logoWarning \<in> set (snd (snd (buildZones s))))
   \<and> (\<forall>k < length ids.
         actions (ids ! k) = Some (''logo'', None) \<or> actions (ids ! k) = Some (''logo'', Some [])
         \<longrightarrow> buildImageMapForTest ids actions k = None)"
proof -
  have a: "0 < nFiles \<longrightarrow> runSanitization nFiles s = Some (buildZones s)"
    by (simp add: runSanitization_def)
  have b: "length (fst (buildZones s)) = length (rects s)"
    by (simp add: buildZones_zones)
  have c: "length (snd (snd (buildZones s)))
             = length (filter (unresolvedLogo (rectActions s)) (rects s))"
    by (simp add: buildZones_warns)
  have d: "fst (buildZones s) ! k = zoneOf (rects s ! k)
        \<and> fst (snd (buildZones s)) k = None
        \<and> logoWarning \<in> set (snd (snd (buildZones s)))"
    if k: "k < length (rects s)" and u: "unresolvedLogo (rectActions s) (rects s ! k)" for k
  proof -
    from k u have "\<exists>x. x \<in> set (rects s) \<and> unresolvedLogo (rectActions s) x"
      using nth_mem by blast
    then have "logoWarning \<in> set (snd (snd (buildZones s)))"
      by (auto simp add: buildZones_warns image_iff)
    then show ?thesis
      using k unresolvedLogo_no_key [OF u] by (simp add: buildZones_zones buildZones_map)
  qed
  have e: "\<forall>k < length ids.
         actions (ids ! k) = Some (''logo'', None) \<or> actions (ids ! k) = Some (''logo'', Some [])
         \<longrightarrow> buildImageMapForTest ids actions k = None"
    by (auto simp add: buildImageMapForTest_def buildImageMapForTest_loop_map)
  from a b c d e show ?thesis by blast
qed

text \<open>The states of the session, computed.\<close>

lemma math_round_numeral [simp]:
  "math_round 10 = 10" "math_round 100 = 100" "math_round 50 = 50"
  "math_round 200 = 200" "math_round 60 = 60" "math_round 0 = 0"
  by (simp_all add: math_round_def)

lemma sessionA_eq:
  "sessionA = emptySession\<lparr>draft := Some \<lparr>d_x = 10, d_y = 10, d_w = 100, d_h = 50\<rparr>,
                confirmUI := Some (118, 68), startRef := Some (10, 10)\<rparr>"
  by (simp add: sessionA_def drawDraft_def onPointerUp_def onPointerMove_def onPointerDown_def
        emptySession_def Let_def binary64_numeral)

lemma sessionB_eq:
  "sessionB = emptySession\<lparr>rects := [rectA],
                rectActions := [''a'' \<mapsto> \<lparr>action = ''redact'', a_logoFile = Undefined, logoKey = None\<rparr>],
                draft := Some \<lparr>d_x = 200, d_y = 200, d_w = 100, d_h = 60\<rparr>,
                confirmUI := Some (308, 268), startRef := Some (200, 200),
                templateFileIdx := Some 0\<rparr>"
  unfolding sessionB_def sessionA_eq
  by (simp add: drawDraft_def onPointerUp_def onPointerMove_def onPointerDown_def
        confirmDraft_def emptySession_def Let_def rectA_def binary64_numeral)

lemma sessionAB_eq:
  "sessionAB = emptySession\<lparr>rects := [rectA, rectB],
                rectActions := [''a'' \<mapsto> \<lparr>action = ''redact'', a_logoFile = Undefined, logoKey = None\<rparr>,
                                ''b'' \<mapsto> \<lparr>action = ''redact'', a_logoFile = Undefined, logoKey = None\<rparr>],
                startRef := Some (200, 200), templateFileIdx := Some 0\<rparr>"
  unfolding sessionAB_def sessionB_eq
  by (simp add: confirmDraft_def emptySession_def rectA_def rectB_def)

lemma sessionLogo_eq:
  "sessionLogo = emptySession\<lparr>rects := [rectA, rectB],
                rectActions := [''a'' \<mapsto> \<lparr>action = ''logo'', a_logoFile = Null, logoKey = None\<rparr>,
                                ''b'' \<mapsto> \<lparr>action = ''logo'', a_logoFile = File ''logo.png'',
                                            logoKey = Some ''logos/logo.png''\<rparr>],
                startRef := Some (200, 200), templateFileIdx := Some 0\<rparr>"
  unfolding sessionLogo_def sessionAB_eq
  by (simp add: actionOnChange_def logoOnChange_def emptySession_def Let_def fun_upd_twist)

text \<open>Rectangle \<open>a\<close> of the session is a logo rectangle without an uploaded key.\<close>

theorem unresolved_logo_zone_kept_witness:
  "runSanitization 1 sessionLogo = Some (buildZones sessionLogo)
   \<and> rects sessionLogo = [rectA, rectB]
   \<and> unresolvedLogo (rectActions sessionLogo) rectA
   \<and> fst (buildZones sessionLogo) ! 0 = zoneOf rectA
   \<and> fst (snd (buildZones sessionLogo)) 0 = None
   \<and> logoWarning \<in> set (snd (snd (buildZones sessionLogo)))
   \<and> buildImageMapForTest [''1'', ''2''] [''1'' \<mapsto> (''logo'', None), ''2'' \<mapsto> (''redact'', None)] 0 = None"
proof -
  have r: "rects sessionLogo = [rectA, rectB]"
    and u: "unresolvedLogo (rectActions sessionLogo) rectA"
    by (simp_all add: sessionLogo_eq emptySession_def unresolvedLogo_def rectA_def)
  have k: "0 < length (rects sessionLogo)" and r0: "rects sessionLogo ! 0 = rectA"
    by (simp_all add: r)
  have i: "0 < length [''1'', ''2'']"
    and a: "[''1'' \<mapsto> (''logo'', None), ''2'' \<mapsto> (''redact'', None :: string option)] ([''1'', ''2''] ! 0)
             = Some (''logo'', None)"
    by simp_all
  note t = unresolved_logo_zone_kept [of 1 sessionLogo "[''1'', ''2'']"
         "[''1'' \<mapsto> (''logo'', None), ''2'' \<mapsto> (''redact'', None)]"]
  from t have "runSanitization 1 sessionLogo = Some (buildZones sessionLogo)" by simp
  moreover from t k u r0 have "fst (buildZones sessionLogo) ! 0 = zoneOf rectA
     \<and> fst (snd (buildZones sessionLogo)) 0 = None
     \<and> logoWarning \<in> set (snd (snd (buildZones sessionLogo)))"
    by metis
  moreover from t i a have "buildImageMapForTest [''1'', ''2'']
       [''1'' \<mapsto> (''logo'', None), ''2'' \<mapsto> (''redact'', None)] 0 = None"
    by blast
  ultimately show ?thesis using r u by blast
qed

section \<open>A draft without area committed in PDFSanitizerApp.jsx\<close>

text \<open>
  Claim C5. A commit attempt whose pixel rectangle has width 0 or height 0 is to be a
  no-op on the store. PDFSanitizerApp1.jsx keeps to it (\<open>handlePointerUp_zero_area\<close>),
  and in PDFSanitizerApp.jsx so does a pointer-up (\<open>onPointerUp_small_draft\<close>). But
  \<^verbatim>\<open>confirmDraft\<close> does not look at the size of the draft, and \<^verbatim>\<open>onPointerDown\<close>
  replaces the draft by one of width and height 0 without hiding the \<^verbatim>\<open>Confirm\<close>
  button of the draft before: with the draft of \<open>a\<close> waiting for its confirmation, a
  pointer-down at \<open>(50, 50)\<close> followed by \<^verbatim>\<open>Confirm\<close> puts a rectangle of width 0
  and height 0 into the store, and the build emits its zone.
\<close>

theorem stale_confirm_commits_zero_area:
  "rects sessionA = []
   \<and> draft sessionA = Some \<lparr>d_x = 10, d_y = 10, d_w = 100, d_h = 50\<rparr>
   \<and> confirmUI sessionA = Some (118, 68)
   \<and> draft (onPointerDown (50, 50) sessionA) = Some \<lparr>d_x = 50, d_y = 50, d_w = 0, d_h = 0\<rparr>
   \<and> confirmUI (onPointerDown (50, 50) sessionA) = Some (118, 68)
   \<and> rects sessionStaleConfirm
       = [\<lparr>r_id = ''c'', r_x = 50, r_y = 50, r_w = 0, r_h = 0, r_fileIdx = 0,
           r_page = 0, r_paper = ''A4'', r_orientation = ''V''\<rparr>]
   \<and> fst (buildZones sessionStaleConfirm)
       = [\<lparr>z_page = 0, bbox = [50, 50, 50, 50], paper = ''A4'', z_orientation = ''V'',
           file_idx = 0\<rparr>]"
  unfolding sessionStaleConfirm_def sessionA_eq
  by (simp add: onPointerDown_def confirmDraft_def emptySession_def buildZones_zones zoneOf_def
        math_round_def)

lemma confirmDraft_appends:
  assumes "overlayMounted s" and "draft s = Some d"
  shows "\<exists>r. r_id r = ident \<and> rects (confirmDraft ident s) = rects s @ [r]"
  using assms by (simp add: confirmDraft_def)

text \<open>Every entry of the asset map of \<^verbatim>\<open>onSubmit\<close> comes from an upload of the builder.\<close>

lemma image_map1_hit:
  assumes doc: "pdfDoc s = Some doc" and hit: "image_map1 s k = Some v"
  shows "k < length (storeEntries doc (pageRects s))
       \<and> hasLogoFile (k, storeEntries doc (pageRects s) ! k)
       \<and> v = ''logo_'' @ digits k"
proof -
  let ?E = "storeEntries doc (pageRects s)"
  from hit obtain u where u: "u \<in> set (snd (buildPayloadAndLogos s))"
      and uk: "up_rect_idx u = k" and uv: "field u = v"
    using image_map_loop_hit [of "snd (buildPayloadAndLogos s)" Map.empty k v]
    by (auto simp add: image_map1_def)
  from u doc obtain e where e: "e \<in> set (enumerate 0 ?E)" and h: "hasLogoFile e"
      and ue: "u = uploadOf e"
    by (auto simp add: buildPayloadAndLogos_entries)
  obtain i p r where ipr: "e = (i, p, r)" by (cases e)
  from ue uk uv ipr have ik: "i = k" and v: "v = ''logo_'' @ digits k"
    by (simp_all add: uploadOf_def)
  from e ipr ik have "k < length ?E" and "?E ! k = (p, r)"
    by (simp_all add: in_set_enumerate_eq)
  with h ipr ik v show ?thesis by simp
qed

lemma handlePointerUp_appends:
  "rectsForPage (handlePointerUp s) = rectsForPage s
   \<or> (\<exists>r. rectsForPage (handlePointerUp s) = rectsForPage s @ [r])"
  by (simp add: handlePointerUp_def rectsForPage_def rectsOf_def Let_def
        split: option.split prod.split)

text \<open>The store of the scenario with a logo attached, computed.\<close>

lemma logoStore_eq:
  "logoStore = (letterDrag (0, 0))\<lparr>isDrawing := False,
        pageRects := [1 \<mapsto> [\<lparr>nr = \<lparr>x1n = 0, y1n = 0, x2n = 1, y2n = 1\<rparr>,
                              kind = ''logo'', logoFile = Some ''logo.png''\<rparr>]]\<rparr>"
  unfolding logoStore_def full_state
  by (simp add: setRectLogoFile_def updateRectKind_def letterDrag_def rectsOf_def Let_def)

lemma digits_0: "digits 0 = ''0''"
  by code_simp

lemma logoStore_image_map: "image_map1 logoStore 0 = Some ''logo_0''"
  unfolding logoStore_eq
  by (simp add: image_map1_def buildPayloadAndLogos_def letterDrag_def rectsOf_def Let_def
        digits_0)

lemma binary64_half: "binary64 (1 / 2) = 1 / 2"
  by (simp add: binary64_eval [of _ 53] round_even_def Let_def)

text \<open>The stores of the scenarios with two rectangles, computed.\<close>

lemma twoRects_eq:
  "twoRects = (letterDrag (0, 0))\<lparr>isDrawing := False, startPos := (459, 594),
        pageRects := [1 \<mapsto> [\<lparr>nr = \<lparr>x1n = 0, y1n = 0, x2n = 1, y2n = 1\<rparr>,
                               kind = ''redact'', logoFile = None\<rparr>,
                              \<lparr>nr = \<lparr>x1n = 1 / 2, y1n = 1 / 2, x2n = 1, y2n = 1\<rparr>,
                               kind = ''redact'', logoFile = None\<rparr>]]\<rparr>"
  unfolding twoRects_def full_state
  by (simp add: dragTo_def handlePointerUp_def handlePointerMove_def handlePointerDown_def
        letterDrag_def dragRect_def rectsOf_def Let_def normalizeRect64_def binary64_half
        binary64_1)

lemma pageTwoSession_eq:
  "pageTwoSession =
     \<lparr>activeFileIdx = 0, pdfDoc = Some [letterPage, letterPage], pageNumber = 2,
      zoom = 3 / 2, overlayCanvas = Some (918, 1188), isDrawing = False,
      startPos = (459, 594), currentPos = (918, 1188),
      pageRects = [2 \<mapsto> [\<lparr>nr = \<lparr>x1n = 0, y1n = 0, x2n = 1, y2n = 1\<rparr>,
                              kind = ''redact'', logoFile = None\<rparr>,
                             \<lparr>nr = \<lparr>x1n = 1 / 2, y1n = 1 / 2, x2n = 1, y2n = 1\<rparr>,
                              kind = ''redact'', logoFile = None\<rparr>]]\<rparr>"
  by (simp add: pageTwoSession_def nextPage_def numPages_def dragTo_def handlePointerUp_def
        handlePointerMove_def handlePointerDown_def dragRect_def rectsOf_def Let_def
        normalizeRect64_def binary64_half binary64_0 binary64_1 numeral_2_eq_2)

text \<open>
  The claim as stated fails in PDFSanitizerApp1.jsx: the builder visits the pages of
  the active document only, and the store is not cleared when another file is
  selected. The two rectangles drawn on page 2 of file 0 are emitted, in their order,
  while file 0 is active; with the one-page file 1 selected they are still in the
  store, and the build emits nothing.
\<close>

theorem zones_other_document_counterexample:
  "map bbox_norm (fst (buildPayloadAndLogos pageTwoSession)) = [0, 0, 1, 1] # [1 / 2, 1 / 2, 1, 1] # []
   \<and> map page (fst (buildPayloadAndLogos pageTwoSession)) = [1, 1]
   \<and> pageRects otherFile = pageRects pageTwoSession
   \<and> map nr (rectsOf (pageRects otherFile) 2)
       = [\<lparr>x1n = 0, y1n = 0, x2n = 1, y2n = 1\<rparr>, \<lparr>x1n = 1 / 2, y1n = 1 / 2, x2n = 1, y2n = 1\<rparr>]
   \<and> numPages otherFile = 1
   \<and> buildPayloadAndLogos otherFile = ([], [])"
  unfolding otherFile_def pageTwoSession_eq
  by (simp add: buildPayloadAndLogos_def loadFile_def numPages_def rectsOf_def letterPage_def
        Let_def)

text \<open>Where the entries of a page of the document lie in the flattened store.\<close>

lemma length_concat_Pair:
  "length (concat (map (\<lambda>q. map (Pair q) (rectsOf prs q)) qs))
     = length (concat (map (rectsOf prs) qs))"
  by (induction qs) simp_all

lemma storeEntries_split:
  assumes "1 \<le> p" and "p \<le> length doc"
  shows "storeEntries doc prs =
           concat (map (\<lambda>q. map (Pair q) (rectsOf prs q)) [1 ..< p])
           @ map (Pair p) (rectsOf prs p)
           @ concat (map (\<lambda>q. map (Pair q) (rectsOf prs q)) [Suc p ..< Suc (length doc)])"
proof -
  have "[1 ..< Suc (length doc)] = [1 ..< p] @ [p ..< Suc (length doc)]"
    using upt_add_eq_append [of 1 p "Suc (length doc) - p"] assms by simp
  moreover have "[p ..< Suc (length doc)] = p # [Suc p ..< Suc (length doc)]"
    using assms by (simp add: upt_conv_Cons)
  ultimately have "[1 ..< Suc (length doc)] = [1 ..< p] @ p # [Suc p ..< Suc (length doc)]"
    by simp
  then show ?thesis unfolding storeEntries_def by (simp only: map_append concat_append list.map concat.simps append_assoc)
qed

lemma storeEntries_nth_page:
  assumes "1 \<le> p" and "p \<le> length doc" and "idx < length (rectsOf prs p)"
  shows "pageOffset prs p + idx < length (storeEntries doc prs)"
    and "storeEntries doc prs ! (pageOffset prs p + idx) = (p, rectsOf prs p ! idx)"
proof -
  show "pageOffset prs p + idx < length (storeEntries doc prs)"
    unfolding storeEntries_split [OF assms(1,2)] pageOffset_def
    using assms(3) by (simp add: length_concat_Pair)
  show "storeEntries doc prs ! (pageOffset prs p + idx) = (p, rectsOf prs p ! idx)"
    unfolding storeEntries_split [OF assms(1,2)] pageOffset_def
    using assms(3) by (simp add: nth_append length_concat_Pair [symmetric])
qed

lemma storeEntries_pages:
  assumes "j < length (storeEntries doc prs)"
  shows "1 \<le> fst (storeEntries doc prs ! j)" and "fst (storeEntries doc prs ! j) \<le> length doc"
proof -
  have "storeEntries doc prs ! j \<in> set (storeEntries doc prs)"
    using assms by (rule nth_mem)
  then have "1 \<le> fst (storeEntries doc prs ! j) \<and> fst (storeEntries doc prs ! j) \<le> length doc"
    by (auto simp add: storeEntries_def)
  then show "1 \<le> fst (storeEntries doc prs ! j)"
    and "fst (storeEntries doc prs ! j) \<le> length doc" by simp_all
qed

text \<open>
  Claim C6, amended. Zones are emitted in insertion order and asset-map keys are zone
  indices. In PDFSanitizerApp.jsx the zone list is the image of the rectangle list,
  position by position, and every key of the asset map is the index of the zone of the
  rectangle whose uploaded key it holds; confirming a draft \<open>A\<close> and later a draft
  \<open>B\<close> appends \<open>A\<close> then \<open>B\<close>, to the rectangles and so to the zones; removal filters
  the list and no other handler touches it, so the order survives every mutation. In
  PDFSanitizerApp1.jsx the payload holds the rectangles of the pages of the active
  document and no others: every emitted page index is below the number of pages; the
  rectangles of such a page are emitted at consecutive positions in the order of the
  page's list, after those of the pages before it; \<^verbatim>\<open>rect_idx\<close> is the position in
  the payload; and every key of the asset map is the position of a \<^verbatim>\<open>logo\<close>
  rectangle with a file. A commit appends to the end of the list of the current page
  and leaves the other pages alone, a removal takes one entry out of the list, and the
  changes of kind and of logo file keep every rectangle at its position.
\<close>

theorem zones_keep_insertion_order:
  "fst (buildZones s) = map zoneOf (rects s)
   \<and> (\<forall>k v. fst (snd (buildZones s)) k = Some v \<longrightarrow>
          k < length (fst (buildZones s)) \<and> resolvedKey (rectActions s) (rects s ! k) = Some v)
   \<and> (overlayMounted s \<and> draft s = Some dA \<and> rects t = rects (confirmDraft idA s)
        \<and> overlayMounted t \<and> draft t = Some dB \<longrightarrow>
        (\<exists>A B. r_id A = idA \<and> r_id B = idB
           \<and> rects (confirmDraft idB t) = rects s @ [A, B]
           \<and> fst (buildZones (confirmDraft idB t)) = fst (buildZones s) @ [zoneOf A, zoneOf B]))
   \<and> rects (removeRectById i s) = filter (\<lambda>r. r_id r \<noteq> i) (rects s)
   \<and> rects (actionOnChange i w s) = rects s
   \<and> rects (logoOnChange i f u s) = rects s
   \<and> rects (onPointerDown p s) = rects s
   \<and> rects (onPointerMove p s) = rects s
   \<and> rects (onPointerUp s) = rects s
   \<and> rects (cancelDraft s) = rects s
   \<and> (pdfDoc st = Some doc \<longrightarrow>
         length (fst (buildPayloadAndLogos st)) = length (storeEntries doc (pageRects st))
       \<and> (\<forall>j < length (fst (buildPayloadAndLogos st)).
             rect_idx (fst (buildPayloadAndLogos st) ! j) = j
           \<and> page (fst (buildPayloadAndLogos st) ! j) < length doc)
       \<and> (\<forall>q m. 1 \<le> q \<and> q \<le> length doc \<and> m < length (rectsOf (pageRects st) q) \<longrightarrow>
             pageOffset (pageRects st) q + m < length (fst (buildPayloadAndLogos st))
           \<and> page (fst (buildPayloadAndLogos st) ! (pageOffset (pageRects st) q + m)) = q - 1
           \<and> out_kind (fst (buildPayloadAndLogos st) ! (pageOffset (pageRects st) q + m))
               = kind (rectsOf (pageRects st) q ! m)
           \<and> bbox_norm (fst (buildPayloadAndLogos st) ! (pageOffset (pageRects st) q + m))
               = [x1n (nr (rectsOf (pageRects st) q ! m)), y1n (nr (rectsOf (pageRects st) q ! m)),
                  x2n (nr (rectsOf (pageRects st) q ! m)), y2n (nr (rectsOf (pageRects st) q ! m))])
       \<and> (\<forall>k v. image_map1 st k = Some v \<longrightarrow>
             k < length (fst (buildPayloadAndLogos st))
           \<and> hasLogoFile (k, storeEntries doc (pageRects st) ! k)
           \<and> v = ''logo_'' @ digits k))
   \<and> (rectsForPage (handlePointerUp st) = rectsForPage st
        \<or> (\<exists>r. rectsForPage (handlePointerUp st) = rectsForPage st @ [r]))
   \<and> (\<forall>q. q \<noteq> pageNumber st \<longrightarrow> pageRects (handlePointerUp st) q = pageRects st q)
   \<and> rectsForPage (removeRect n st) = take n (rectsForPage st) @ drop (Suc n) (rectsForPage st)
   \<and> map nr (rectsForPage (updateRectKind n kd st)) = map nr (rectsForPage st)
   \<and> map nr (rectsForPage (setRectLogoFile n lf st)) = map nr (rectsForPage st)"
proof -
  have a: "fst (buildZones s) = map zoneOf (rects s)"
    by (rule buildZones_zones)
  have b: "\<forall>k v. fst (snd (buildZones s)) k = Some v \<longrightarrow>
          k < length (fst (buildZones s)) \<and> resolvedKey (rectActions s) (rects s ! k) = Some v"
    by (simp add: buildZones_map buildZones_zones split: if_splits)
  have c: "\<exists>A B. r_id A = idA \<and> r_id B = idB
           \<and> rects (confirmDraft idB t) = rects s @ [A, B]
           \<and> fst (buildZones (confirmDraft idB t)) = fst (buildZones s) @ [zoneOf A, zoneOf B]"
    if h: "overlayMounted s \<and> draft s = Some dA \<and> rects t = rects (confirmDraft idA s)
        \<and> overlayMounted t \<and> draft t = Some dB"
  proof -
    from h confirmDraft_appends [of s dA idA]
    obtain A where A: "r_id A = idA" "rects (confirmDraft idA s) = rects s @ [A]" by blast
    from h confirmDraft_appends [of t dB idB]
    obtain B where B: "r_id B = idB" "rects (confirmDraft idB t) = rects t @ [B]" by blast
    from A B h have "rects (confirmDraft idB t) = rects s @ [A, B]" by simp
    then have "fst (buildZones (confirmDraft idB t)) = fst (buildZones s) @ [zoneOf A, zoneOf B]"
      by (simp add: buildZones_zones)
    with A B \<open>rects (confirmDraft idB t) = rects s @ [A, B]\<close> show ?thesis by blast
  qed
  have d: "rects (removeRectById i s) = filter (\<lambda>r. r_id r \<noteq> i) (rects s)"
    by (simp add: removeRectById_def)
  have e: "rects (actionOnChange i w s) = rects s"
    by (simp add: actionOnChange_def Let_def)
  have f: "rects (logoOnChange i f u s) = rects s"
    by (simp add: logoOnChange_def split: option.split)
  have g: "rects (onPointerDown p s) = rects s" "rects (onPointerMove p s) = rects s"
          "rects (onPointerUp s) = rects s" "rects (cancelDraft s) = rects s"
    by (simp_all add: onPointerDown_def onPointerMove_def onPointerUp_def cancelDraft_def Let_def
          split: option.split)
  have h: "length (fst (buildPayloadAndLogos st)) = length (storeEntries doc (pageRects st))
       \<and> (\<forall>j < length (fst (buildPayloadAndLogos st)).
             rect_idx (fst (buildPayloadAndLogos st) ! j) = j
           \<and> page (fst (buildPayloadAndLogos st) ! j) < length doc)
       \<and> (\<forall>q m. 1 \<le> q \<and> q \<le> length doc \<and> m < length (rectsOf (pageRects st) q) \<longrightarrow>
             pageOffset (pageRects st) q + m < length (fst (buildPayloadAndLogos st))
           \<and> page (fst (buildPayloadAndLogos st) ! (pageOffset (pageRects st) q + m)) = q - 1
           \<and> out_kind (fst (buildPayloadAndLogos st) ! (pageOffset (pageRects st) q + m))
               = kind (rectsOf (pageRects st) q ! m)
           \<and> bbox_norm (fst (buildPayloadAndLogos st) ! (pageOffset (pageRects st) q + m))
               = [x1n (nr (rectsOf (pageRects st) q ! m)), y1n (nr (rectsOf (pageRects st) q ! m)),
                  x2n (nr (rectsOf (pageRects st) q ! m)), y2n (nr (rectsOf (pageRects st) q ! m))])
       \<and> (\<forall>k v. image_map1 st k = Some v \<longrightarrow>
             k < length (fst (buildPayloadAndLogos st))
           \<and> hasLogoFile (k, storeEntries doc (pageRects st) ! k)
           \<and> v = ''logo_'' @ digits k)"
    if doc: "pdfDoc st = Some doc"
  proof -
    let ?E = "storeEntries doc (pageRects st)"
    let ?P = "fst (buildPayloadAndLogos st)"
    have l: "length ?P = length ?E"
      using doc by (simp add: buildPayloadAndLogos_entries)
    have nth: "?P ! j = payloadOf doc (j, ?E ! j)" if "j < length ?E" for j
      using doc that by (simp add: buildPayloadAndLogos_entries nth_enumerate_eq)
    have n1: "rect_idx (?P ! j) = j \<and> page (?P ! j) < length doc" if j: "j < length ?P" for j
    proof -
      from j l have jE: "j < length ?E" by simp
      obtain q r where e: "?E ! j = (q, r)" by (cases "?E ! j")
      from storeEntries_pages [OF jE] e have "q - 1 < length doc" by simp
      then show ?thesis unfolding nth [OF jE] e by (simp add: payloadOf_def)
    qed
    have n2: "pageOffset (pageRects st) q + m < length ?P
           \<and> page (?P ! (pageOffset (pageRects st) q + m)) = q - 1
           \<and> out_kind (?P ! (pageOffset (pageRects st) q + m)) = kind (rectsOf (pageRects st) q ! m)
           \<and> bbox_norm (?P ! (pageOffset (pageRects st) q + m))
               = [x1n (nr (rectsOf (pageRects st) q ! m)), y1n (nr (rectsOf (pageRects st) q ! m)),
                  x2n (nr (rectsOf (pageRects st) q ! m)), y2n (nr (rectsOf (pageRects st) q ! m))]"
      if q: "1 \<le> q \<and> q \<le> length doc \<and> m < length (rectsOf (pageRects st) q)" for q m
    proof -
      from q have q1: "1 \<le> q" and q2: "q \<le> length doc"
        and q3: "m < length (rectsOf (pageRects st) q)" by simp_all
      note p = storeEntries_nth_page [OF q1 q2 q3]
      from p(1) l have "pageOffset (pageRects st) q + m < length ?P" by simp
      then show ?thesis unfolding nth [OF p(1)] p(2) by (simp add: payloadOf_def)
    qed
    from l n1 n2 image_map1_hit [OF doc] show ?thesis by simp
  qed
  note k = handlePointerUp_appends [of st]
  have m: "\<forall>q. q \<noteq> pageNumber st \<longrightarrow> pageRects (handlePointerUp st) q = pageRects st q"
    by (simp add: handlePointerUp_def Let_def split: option.split prod.split)
  have r: "rectsForPage (removeRect n st) = take n (rectsForPage st) @ drop (Suc n) (rectsForPage st)"
    by (simp add: removeRect_def rectsForPage_def rectsOf_def Let_def)
  have ku: "map nr (rectsForPage (updateRectKind n kd st)) = map nr (rectsForPage st)"
    by (simp add: updateRectKind_def rectsForPage_def Let_def rectsOf_def map_update
          list_update_same_conv)
  have lf: "map nr (rectsForPage (setRectLogoFile n lf st)) = map nr (rectsForPage st)"
    by (simp add: setRectLogoFile_def rectsForPage_def Let_def rectsOf_def map_update
          list_update_same_conv)
  from a b c d e f g h k m r ku lf show ?thesis by blast
qed

text \<open>
  The session with rectangles \<open>a\<close> and \<open>b\<close>: two zones in that order, the key of
  \<open>b\<close> under index 1. The one-rectangle store with its logo under index 0. And the
  store with two rectangles drawn on page 1, emitted in the order of drawing.
\<close>

theorem zones_keep_insertion_order_witness:
  "fst (buildZones sessionLogo) = [zoneOf rectA, zoneOf rectB]
   \<and> fst (snd (buildZones sessionLogo)) 1 = Some ''logos/logo.png''
   \<and> resolvedKey (rectActions sessionLogo) rectB = Some ''logos/logo.png''
   \<and> overlayMounted sessionA \<and> overlayMounted sessionB
   \<and> rects sessionA = []
   \<and> rects (confirmDraft ''b'' sessionB) = [rectA, rectB]
   \<and> fst (buildZones (confirmDraft ''b'' sessionB)) = [zoneOf rectA, zoneOf rectB]
   \<and> image_map1 logoStore 0 = Some ''logo_0''
   \<and> rect_idx (fst (buildPayloadAndLogos logoStore) ! 0) = 0
   \<and> hasLogoFile (0, storeEntries [\<lparr>widthPts = 612, heightPts = 792, rotate = 0\<rparr>] (pageRects logoStore) ! 0)
   \<and> pdfDoc twoRects = Some [\<lparr>widthPts = 612, heightPts = 792, rotate = 0\<rparr>]
   \<and> map nr (rectsOf (pageRects twoRects) 1)
       = [\<lparr>x1n = 0, y1n = 0, x2n = 1, y2n = 1\<rparr>, \<lparr>x1n = 1 / 2, y1n = 1 / 2, x2n = 1, y2n = 1\<rparr>]
   \<and> pageOffset (pageRects twoRects) 1 = 0
   \<and> length (fst (buildPayloadAndLogos twoRects)) = 2
   \<and> bbox_norm (fst (buildPayloadAndLogos twoRects) ! 0) = [0, 0, 1, 1]
   \<and> bbox_norm (fst (buildPayloadAndLogos twoRects) ! 1) = [1 / 2, 1 / 2, 1, 1]
   \<and> rect_idx (fst (buildPayloadAndLogos twoRects) ! 1) = 1"
proof -
  let ?doc = "[\<lparr>widthPts = 612, heightPts = 792, rotate = 0\<rparr>]"
  note t = zones_keep_insertion_order [where s = sessionLogo and st = logoStore and doc = ?doc]
  note t2 = zones_keep_insertion_order [where s = sessionA and t = sessionB
      and dA = "\<lparr>d_x = 10, d_y = 10, d_w = 100, d_h = 50\<rparr>" and idA = "''a''"
      and dB = "\<lparr>d_x = 200, d_y = 200, d_w = 100, d_h = 60\<rparr>" and idB = "''b''"]
  note t3 = zones_keep_insertion_order [where st = twoRects and doc = ?doc]
  note zones = t [THEN conjunct1]
  note keys = t [THEN conjunct2, THEN conjunct1]
  note confirm = t2 [THEN conjunct2, THEN conjunct2, THEN conjunct1]
  note store = t [THEN conjunct2, THEN conjunct2, THEN conjunct2, THEN conjunct2,
      THEN conjunct2, THEN conjunct2, THEN conjunct2, THEN conjunct2, THEN conjunct2,
      THEN conjunct2, THEN conjunct1]
  note store2 = t3 [THEN conjunct2, THEN conjunct2, THEN conjunct2, THEN conjunct2,
      THEN conjunct2, THEN conjunct2, THEN conjunct2, THEN conjunct2, THEN conjunct2,
      THEN conjunct2, THEN conjunct1]
  have r: "rects sessionLogo = [rectA, rectB]"
    by (simp add: sessionLogo_eq emptySession_def)
  have m: "fst (snd (buildZones sessionLogo)) 1 = Some ''logos/logo.png''"
    by (simp add: buildZones_map r resolvedKey_def sessionLogo_eq emptySession_def rectB_def)
  have hA: "overlayMounted sessionA" "draft sessionA = Some \<lparr>d_x = 10, d_y = 10, d_w = 100, d_h = 50\<rparr>"
           "rects sessionA = []"
    by (simp_all add: sessionA_eq emptySession_def)
  have hB: "overlayMounted sessionB" "draft sessionB = Some \<lparr>d_x = 200, d_y = 200, d_w = 100, d_h = 60\<rparr>"
    by (simp_all add: sessionB_eq emptySession_def)
  have hAB: "rects sessionB = rects (confirmDraft ''a'' sessionA)"
    unfolding sessionB_eq sessionA_eq by (simp add: confirmDraft_def emptySession_def rectA_def)
  have ab: "rects (confirmDraft ''b'' sessionB) = [rectA, rectB]"
    using sessionAB_eq by (simp add: sessionAB_def emptySession_def)
  have doc: "pdfDoc logoStore = Some ?doc"
    and len: "0 < length (storeEntries ?doc (pageRects logoStore))"
    by (simp_all add: logoStore_eq letterDrag_def storeEntries_def rectsOf_def)
  from zones r have z: "fst (buildZones sessionLogo) = [zoneOf rectA, zoneOf rectB]" by simp
  from keys m have k: "resolvedKey (rectActions sessionLogo) (rects sessionLogo ! 1) = Some ''logos/logo.png''"
    by blast
  from confirm hA hB hAB
  have "\<exists>A B. r_id A = ''a'' \<and> r_id B = ''b''
           \<and> rects (confirmDraft ''b'' sessionB) = rects sessionA @ [A, B]
           \<and> fst (buildZones (confirmDraft ''b'' sessionB))
               = fst (buildZones sessionA) @ [zoneOf A, zoneOf B]"
    by blast
  with ab hA t2 [THEN conjunct1]
  have zab: "fst (buildZones (confirmDraft ''b'' sessionB)) = [zoneOf rectA, zoneOf rectB]"
    by auto
  note s1 = store [THEN mp, OF doc]
  from s1 have l1: "length (fst (buildPayloadAndLogos logoStore))
                      = length (storeEntries ?doc (pageRects logoStore))" by (rule conjunct1)
  from s1 [THEN conjunct2, THEN conjunct1] len l1
  have i: "rect_idx (fst (buildPayloadAndLogos logoStore) ! 0) = 0" by simp
  from s1 [THEN conjunct2, THEN conjunct2, THEN conjunct2] logoStore_image_map
  have h: "hasLogoFile (0, storeEntries ?doc (pageRects logoStore) ! 0)"
    by blast
  have doc2: "pdfDoc twoRects = Some ?doc"
    and rs: "rectsOf (pageRects twoRects) 1
       = [\<lparr>nr = \<lparr>x1n = 0, y1n = 0, x2n = 1, y2n = 1\<rparr>, kind = ''redact'', logoFile = None\<rparr>,
          \<lparr>nr = \<lparr>x1n = 1 / 2, y1n = 1 / 2, x2n = 1, y2n = 1\<rparr>, kind = ''redact'', logoFile = None\<rparr>]"
    and off: "pageOffset (pageRects twoRects) 1 = 0"
    and se: "length (storeEntries ?doc (pageRects twoRects)) = 2"
    by (simp_all add: twoRects_eq letterDrag_def rectsOf_def pageOffset_def storeEntries_def)
  note s2 = store2 [THEN mp, OF doc2]
  note pos = s2 [THEN conjunct2, THEN conjunct2, THEN conjunct1, rule_format]
  have q0: "(1::nat) \<le> 1 \<and> 1 \<le> length ?doc \<and> 0 < length (rectsOf (pageRects twoRects) 1)"
    and q1: "(1::nat) \<le> 1 \<and> 1 \<le> length ?doc \<and> 1 < length (rectsOf (pageRects twoRects) 1)"
    unfolding rs by simp_all
  from pos [OF q0] have b0: "bbox_norm (fst (buildPayloadAndLogos twoRects) ! 0) = [0, 0, 1, 1]"
    unfolding off rs by simp
  from pos [OF q1] have b1: "bbox_norm (fst (buildPayloadAndLogos twoRects) ! 1) = [1 / 2, 1 / 2, 1, 1]"
    unfolding off rs by simp
  from s2 have "length (fst (buildPayloadAndLogos twoRects))
                  = length (storeEntries ?doc (pageRects twoRects))" by (rule conjunct1)
  then have l3: "length (fst (buildPayloadAndLogos twoRects)) = 2" by (simp add: se)
  from s2 [THEN conjunct2, THEN conjunct1] l3
  have i1: "rect_idx (fst (buildPayloadAndLogos twoRects) ! 1) = 1" by simp
  from z m k hA hB ab zab logoStore_image_map i h r doc2 rs off l3 b0 b1 i1 show ?thesis by simp
qed

section \<open>A late upload in PDFSanitizerApp.jsx\<close>

text \<open>
  The switch of a rectangle away from \<^verbatim>\<open>logo\<close> clears its asset in both programs.
  In PDFSanitizerApp.jsx the action entry becomes \<^verbatim>\<open>redact\<close> with no file and no
  key, and a build made in that state has no asset-map entry at any position of that
  rectangle. In PDFSanitizerApp1.jsx the store entry gets the new kind and no file, and
  the asset map built in that state has no entry at any position of that entry.
\<close>

lemma switch_clears_asset:
  "(v \<noteq> ''logo'' \<longrightarrow>
      rectActions (actionOnChange ident v s) ident
        = Some \<lparr>action = ''redact'', a_logoFile = Undefined, logoKey = None\<rparr>
    \<and> (\<forall>k < length (rects s). r_id (rects s ! k) = ident \<longrightarrow>
          fst (snd (buildZones (actionOnChange ident v s))) k = None))
   \<and> (kd \<noteq> ''logo'' \<and> idx < length (rectsForPage st) \<longrightarrow>
        rectsForPage (updateRectKind idx kd st) ! idx
          = (rectsForPage st ! idx)\<lparr>kind := kd, logoFile := None\<rparr>
      \<and> (\<forall>doc j. pdfDoc st = Some doc
             \<and> j < length (storeEntries doc (pageRects (updateRectKind idx kd st)))
             \<and> storeEntries doc (pageRects (updateRectKind idx kd st)) ! j
                 = (pageNumber st, rectsForPage (updateRectKind idx kd st) ! idx)
           \<longrightarrow> image_map1 (updateRectKind idx kd st) j = None))"
proof -
  have a: "rectActions (actionOnChange ident v s) ident
        = Some \<lparr>action = ''redact'', a_logoFile = Undefined, logoKey = None\<rparr>
    \<and> (\<forall>k < length (rects s). r_id (rects s ! k) = ident \<longrightarrow>
          fst (snd (buildZones (actionOnChange ident v s))) k = None)"
    if v: "v \<noteq> ''logo''"
  proof -
    have act: "rectActions (actionOnChange ident v s) ident
        = Some \<lparr>action = ''redact'', a_logoFile = Undefined, logoKey = None\<rparr>"
      using v by (simp add: actionOnChange_def Let_def)
    have rs: "rects (actionOnChange ident v s) = rects s"
      by (simp add: actionOnChange_def Let_def)
    have "fst (snd (buildZones (actionOnChange ident v s))) k = None"
      if "k < length (rects s)" and "r_id (rects s ! k) = ident" for k
      using that act by (simp add: buildZones_map rs resolvedKey_def)
    with act show ?thesis by blast
  qed
  have b: "rectsForPage (updateRectKind idx kd st) ! idx
          = (rectsForPage st ! idx)\<lparr>kind := kd, logoFile := None\<rparr>
      \<and> (\<forall>doc j. pdfDoc st = Some doc
             \<and> j < length (storeEntries doc (pageRects (updateRectKind idx kd st)))
             \<and> storeEntries doc (pageRects (updateRectKind idx kd st)) ! j
                 = (pageNumber st, rectsForPage (updateRectKind idx kd st) ! idx)
           \<longrightarrow> image_map1 (updateRectKind idx kd st) j = None)"
    if h: "kd \<noteq> ''logo'' \<and> idx < length (rectsForPage st)"
  proof -
    let ?s = "updateRectKind idx kd st"
    have upd: "rectsForPage ?s ! idx = (rectsForPage st ! idx)\<lparr>kind := kd, logoFile := None\<rparr>"
      using h by (simp add: updateRectKind_def rectsForPage_def rectsOf_def Let_def)
    have pd: "pdfDoc ?s = pdfDoc st"
      by (simp add: updateRectKind_def Let_def)
    have "image_map1 ?s j = None"
      if doc: "pdfDoc st = Some doc"
        and j: "j < length (storeEntries doc (pageRects ?s))"
        and e: "storeEntries doc (pageRects ?s) ! j = (pageNumber st, rectsForPage ?s ! idx)"
      for doc j
    proof (cases "image_map1 ?s j")
      case None
      then show ?thesis .
    next
      case (Some w)
      from image_map1_hit [of ?s doc j w] doc pd Some
      have "hasLogoFile (j, storeEntries doc (pageRects ?s) ! j)" by simp
      with e upd h show ?thesis by (simp add: hasLogoFile_def)
    qed
    with upd show ?thesis by blast
  qed
  from a b show ?thesis by blast
qed

text \<open>
  Claim C8. Setting a rectangle's kind away from \<^verbatim>\<open>logo\<close> is to clear its asset, so
  that no build made afterwards places it. The switch itself does so
  (\<open>switch_clears_asset\<close>). But in PDFSanitizerApp.jsx the handler of the logo input
  writes its entry when the upload settles, and it writes the action \<^verbatim>\<open>logo\<close> with
  the file and the key without reading the action the rectangle has by then. With a
  file chosen for \<open>b\<close>, \<open>b\<close> switched to \<^verbatim>\<open>redact\<close> while the upload of that file
  is under way, and the upload settling after the switch, the entry of \<open>b\<close> is
  \<^verbatim>\<open>logo\<close> with that file and its key, and the next build places the asset at the
  index of \<open>b\<close>.
\<close>

theorem late_upload_restores_asset:
  "rectActions sessionLogo ''b''
     = Some \<lparr>action = ''logo'', a_logoFile = File ''logo.png'', logoKey = Some ''logos/logo.png''\<rparr>
   \<and> fst (snd (buildZones sessionLogo)) 1 = Some ''logos/logo.png''
   \<and> sessionRedact = actionOnChange ''b'' ''redact'' sessionLogo
   \<and> rectActions sessionRedact ''b''
       = Some \<lparr>action = ''redact'', a_logoFile = Undefined, logoKey = None\<rparr>
   \<and> fst (snd (buildZones sessionRedact)) 1 = None
   \<and> sessionLateUpload
       = logoOnChange ''b'' (Some ''mark.png'') (Some ''logos/mark.png'') sessionRedact
   \<and> rectActions sessionLateUpload ''b''
       = Some \<lparr>action = ''logo'', a_logoFile = File ''mark.png'', logoKey = Some ''logos/mark.png''\<rparr>
   \<and> rects sessionLateUpload = [rectA, rectB]
   \<and> r_id rectB = ''b''
   \<and> fst (snd (buildZones sessionLateUpload)) 1 = Some ''logos/mark.png''"
proof -
  have r: "rects sessionLogo = [rectA, rectB]"
    and b: "rectActions sessionLogo ''b''
       = Some \<lparr>action = ''logo'', a_logoFile = File ''logo.png'', logoKey = Some ''logos/logo.png''\<rparr>"
    by (simp_all add: sessionLogo_eq emptySession_def)
  have m: "fst (snd (buildZones sessionLogo)) 1 = Some ''logos/logo.png''"
    by (simp add: buildZones_map r resolvedKey_def b rectB_def)
  have r2: "rects sessionRedact = [rectA, rectB]"
    and b2: "rectActions sessionRedact ''b''
       = Some \<lparr>action = ''redact'', a_logoFile = Undefined, logoKey = None\<rparr>"
    by (simp_all add: sessionRedact_def actionOnChange_def Let_def r)
  have m2: "fst (snd (buildZones sessionRedact)) 1 = None"
    by (simp add: buildZones_map r2 resolvedKey_def b2 rectB_def)
  have r3: "rects sessionLateUpload = [rectA, rectB]"
    and b3: "rectActions sessionLateUpload ''b''
       = Some \<lparr>action = ''logo'', a_logoFile = File ''mark.png'', logoKey = Some ''logos/mark.png''\<rparr>"
    by (simp_all add: sessionLateUpload_def logoOnChange_def r2)
  have m3: "fst (snd (buildZones sessionLateUpload)) 1 = Some ''logos/mark.png''"
    by (simp add: buildZones_map r3 resolvedKey_def b3 rectB_def)
  have i: "r_id rectB = ''b''" by (simp add: rectB_def)
  from b m b2 m2 b3 r3 m3 i show ?thesis
    by (simp add: sessionRedact_def sessionLateUpload_def)
qed
section \<open>Properties of the erase-term parser\<close>

lemma dedup_loop_keep_first: "dedup_loop ts seen out = out @ keep_first ts seen"
  by (induction ts arbitrary: seen out) (simp_all add: Let_def)

lemma keep_first_subseq: "subseq (keep_first ts seen) ts"
  by (induction ts arbitrary: seen) (auto intro: list_emb.intros)

lemma keep_first_keys:
  "toLowerCase ` set (keep_first ts seen) = toLowerCase ` set ts - seen"
  by (induction ts arbitrary: seen) auto

lemma keep_first_distinct: "distinct (map toLowerCase (keep_first ts seen))"
proof (induction ts arbitrary: seen)
  case Nil
  show ?case by simp
next
  case (Cons t ts)
  have "toLowerCase t \<notin> toLowerCase ` set (keep_first ts (insert (toLowerCase t) seen))"
    by (simp add: keep_first_keys)
  with Cons.IH show ?case by simp
qed

lemma keep_first_find:
  "u \<in> set (keep_first ts seen) \<Longrightarrow>
     find (\<lambda>t. toLowerCase t = toLowerCase u) ts = Some u"
proof (induction ts arbitrary: seen)
  case Nil
  then show ?case by simp
next
  case (Cons t ts)
  show ?case
  proof (cases "toLowerCase t \<in> seen")
    case True
    with Cons.prems have u: "u \<in> set (keep_first ts seen)" by simp
    then have "toLowerCase u \<in> toLowerCase ` set ts - seen"
      using keep_first_keys [of ts seen] by blast
    with True have "toLowerCase t \<noteq> toLowerCase u" by auto
    with Cons.IH [OF u] show ?thesis by simp
  next
    case False
    show ?thesis
    proof (cases "u = t")
      case True
      then show ?thesis by simp
    next
      case ne: False
      with False Cons.prems
      have u: "u \<in> set (keep_first ts (insert (toLowerCase t) seen))" by simp
      then have "toLowerCase u \<in> toLowerCase ` set ts - insert (toLowerCase t) seen"
        using keep_first_keys [of ts "insert (toLowerCase t) seen"] by blast
      then have "toLowerCase t \<noteq> toLowerCase u" by auto
      with Cons.IH [OF u] show ?thesis by simp
    qed
  qed
qed

lemma split_on_nonempty: "split_on sep s \<noteq> []"
  by (induction s) (simp_all split: list.split)

lemma split_on_no_sep: "p \<in> set (split_on sep s) \<Longrightarrow> c \<in> set p \<Longrightarrow> \<not> sep c"
proof (induction s arbitrary: p)
  case Nil
  then show ?case by simp
next
  case (Cons a s)
  show ?case
  proof (cases "sep a")
    case True
    with Cons.prems have "p = [] \<or> p \<in> set (split_on sep s)" by auto
    with Cons.IH Cons.prems(2) show ?thesis by auto
  next
    case False
    obtain q qs where q: "split_on sep s = q # qs"
      using split_on_nonempty [of sep s] by (cases "split_on sep s") auto
    with False Cons.prems have "p = a # q \<or> p \<in> set qs" by auto
    then show ?thesis
    proof
      assume "p = a # q"
      with Cons.prems(2) have "c = a \<or> c \<in> set q" by auto
      with False Cons.IH [of q] q show ?thesis by auto
    next
      assume "p \<in> set qs"
      with Cons.IH [of p] q Cons.prems(2) show ?thesis by auto
    qed
  qed
qed

lemma set_trim: "c \<in> set (trim s) \<Longrightarrow> c \<in> set s"
  by (auto simp add: trim_def dest!: set_dropWhileD)

lemma trim_last: "trim s \<noteq> [] \<Longrightarrow> \<not> isSpace (last (trim s))"
  by (simp add: trim_def last_rev hd_dropWhile)

lemma trim_hd:
  assumes "trim s \<noteq> []"
  shows "\<not> isSpace (hd (trim s))"
proof -
  define z where "z = dropWhile isSpace s"
  define w where "w = dropWhile isSpace (rev z)"
  from assms have w: "w \<noteq> []" by (simp add: trim_def w_def z_def)
  then have z: "z \<noteq> []" by (auto simp add: w_def)
  have "hd w \<in> set (rev z)"
    using w hd_in_set [of w] set_dropWhileD [of "hd w" isSpace "rev z"] by (simp add: w_def)
  moreover have "\<not> isSpace (hd w)"
    using w unfolding w_def by (rule hd_dropWhile)
  ultimately have "last w = last (rev z)"
    unfolding w_def by (rule dropWhile_last)
  then have "hd (trim s) = hd z"
    using w z by (simp add: trim_def w_def [symmetric] z_def [symmetric] hd_rev last_rev)
  moreover have "\<not> isSpace (hd z)"
    using z unfolding z_def by (rule hd_dropWhile)
  ultimately show ?thesis by simp
qed

lemma trim_Nil: "trim [] = []"
  by (simp add: trim_def)

lemma isSep_isSpace_or_comma: "isSep c \<Longrightarrow> isSpace c \<or> c = CHR '',''"
  by (auto simp add: isSep_def isSpace_def)

lemma trim_Cons_space: "isSpace c \<Longrightarrow> trim (c # p) = trim p"
  by (simp add: trim_def)

lemma trim_snoc_space: "isSpace c \<Longrightarrow> trim (p @ [c]) = trim p"
proof (cases "\<forall>x \<in> set p. isSpace x")
  case True
  assume c: "isSpace c"
  from True have "dropWhile isSpace p = []"
    by (simp only: dropWhile_eq_Nil_conv)
  moreover from True c have "\<forall>x \<in> set (p @ [c]). isSpace x" by simp
  then have "dropWhile isSpace (p @ [c]) = []"
    by (simp only: dropWhile_eq_Nil_conv)
  ultimately show ?thesis by (simp only: trim_def rev.simps dropWhile.simps)
next
  case False
  assume "isSpace c"
  with False show ?thesis by (auto simp add: trim_def dropWhile_append)
qed

lemma split_on_snoc:
  "split_on sep (s @ [c]) =
     (if sep c then split_on sep s @ [Nil]
      else butlast (split_on sep s) @ [last (split_on sep s) @ [c]])"
proof (induction s)
  case Nil
  show ?case by simp
next
  case (Cons a s)
  obtain q qs where q: "split_on sep s = q # qs"
    using split_on_nonempty [of sep s] by (cases "split_on sep s") auto
  obtain q' qs' where q': "split_on sep (s @ [c]) = q' # qs'"
    using split_on_nonempty [of sep "s @ [c]"] by (cases "split_on sep (s @ [c])") auto
  from Cons.IH q q' show ?case
    by (cases qs) (auto split: if_splits)
qed

lemma eraseEntries_Cons_space: "isSpace c \<Longrightarrow> eraseEntries (c # s) = eraseEntries s"
proof -
  assume c: "isSpace c"
  obtain q qs where q: "split_on isSep s = q # qs"
    using split_on_nonempty [of isSep s] by (cases "split_on isSep s") auto
  show ?thesis
  proof (cases "isSep c")
    case True
    then show ?thesis by (simp add: eraseEntries_def trim_def)
  next
    case False
    with q c show ?thesis by (simp add: eraseEntries_def trim_Cons_space)
  qed
qed

lemma eraseEntries_snoc_space: "isSpace c \<Longrightarrow> eraseEntries (s @ [c]) = eraseEntries s"
proof -
  assume c: "isSpace c"
  have ne: "split_on isSep s \<noteq> []" by (rule split_on_nonempty)
  show ?thesis
  proof (cases "isSep c")
    case True
    then show ?thesis by (simp add: eraseEntries_def split_on_snoc trim_def)
  next
    case False
    have "split_on isSep s = butlast (split_on isSep s) @ [last (split_on isSep s)]"
      using ne by simp
    then have "eraseEntries s = filter (\<lambda>t. t \<noteq> []) (map trim (butlast (split_on isSep s)))
                 @ filter (\<lambda>t. t \<noteq> []) [trim (last (split_on isSep s))]"
      unfolding eraseEntries_def by (metis filter_append map_append list.simps(8,9))
    with False c show ?thesis
      by (simp add: eraseEntries_def split_on_snoc trim_snoc_space)
  qed
qed

lemma eraseEntries_dropWhile: "eraseEntries (dropWhile isSpace s) = eraseEntries s"
  by (induction s) (simp_all add: eraseEntries_Cons_space)

lemma eraseEntries_rev_dropWhile: "eraseEntries (rev (dropWhile isSpace (rev s))) = eraseEntries s"
proof (induction s rule: rev_induct)
  case Nil
  show ?case by simp
next
  case (snoc c s)
  show ?case
  proof (cases "isSpace c")
    case True
    with snoc.IH show ?thesis by (simp add: eraseEntries_snoc_space)
  next
    case False
    then show ?thesis by simp
  qed
qed

lemma eraseEntries_trim: "eraseEntries (trim s) = eraseEntries s"
  by (simp add: trim_def eraseEntries_rev_dropWhile eraseEntries_dropWhile)

lemma parseEraseCSV_keep_first: "parseEraseCSV input = keep_first (eraseEntries input) {}"
proof -
  have "parseEraseCSV input = keep_first (eraseEntries (trim input)) {}"
    by (simp add: parseEraseCSV_def Let_def dedup_loop_keep_first eraseEntries_def trim_Nil)
  then show ?thesis by (simp add: eraseEntries_trim)
qed

text \<open>
  Claim C10. For every input string, parseEraseCSV returns the entries of the input
  (split on commas and newlines, trimmed, empty ones dropped) deduplicated without
  regard to case, the first occurrence kept: no two returned terms are equal when
  lower-cased; the returned list is a subsequence of the entries, so order and casing
  are theirs; every entry is represented by a returned term equal to it up to case;
  and every returned term is the first entry with its lower-cased form, is not empty,
  has no white space at either end and contains no separator.
\<close>

theorem parseEraseCSV_first_occurrences:
  "distinct (map toLowerCase (parseEraseCSV input))
   \<and> subseq (parseEraseCSV input) (eraseEntries input)
   \<and> (\<forall>t \<in> set (eraseEntries input).
         \<exists>u \<in> set (parseEraseCSV input). toLowerCase u = toLowerCase t)
   \<and> (\<forall>u \<in> set (parseEraseCSV input).
         find (\<lambda>t. toLowerCase t = toLowerCase u) (eraseEntries input) = Some u
       \<and> u \<noteq> [] \<and> \<not> isSpace (hd u) \<and> \<not> isSpace (last u) \<and> (\<forall>c \<in> set u. \<not> isSep c))"
proof -
  let ?E = "eraseEntries input"
  have out: "parseEraseCSV input = keep_first ?E {}"
    by (rule parseEraseCSV_keep_first)
  have a: "distinct (map toLowerCase (parseEraseCSV input))"
    unfolding out by (rule keep_first_distinct)
  have b: "subseq (parseEraseCSV input) ?E"
    unfolding out by (rule keep_first_subseq)
  have keys: "toLowerCase ` set (parseEraseCSV input) = toLowerCase ` set ?E"
    unfolding out by (simp add: keep_first_keys)
  have c: "\<forall>t \<in> set ?E. \<exists>u \<in> set (parseEraseCSV input). toLowerCase u = toLowerCase t"
  proof
    fix t assume "t \<in> set ?E"
    then have "toLowerCase t \<in> toLowerCase ` set (parseEraseCSV input)"
      unfolding keys by simp
    then show "\<exists>u \<in> set (parseEraseCSV input). toLowerCase u = toLowerCase t" by auto
  qed
  have d: "find (\<lambda>t. toLowerCase t = toLowerCase u) ?E = Some u
       \<and> u \<noteq> [] \<and> \<not> isSpace (hd u) \<and> \<not> isSpace (last u) \<and> (\<forall>c \<in> set u. \<not> isSep c)"
    if u: "u \<in> set (parseEraseCSV input)" for u
  proof -
    from u have f: "find (\<lambda>t. toLowerCase t = toLowerCase u) ?E = Some u"
      unfolding out by (rule keep_first_find)
    from u b have "u \<in> set ?E"
      by (metis set_mp set_nths_subset subseq_conv_nths)
    then obtain p where p: "p \<in> set (split_on isSep input)" and up: "u = trim p" and ne: "u \<noteq> []"
      by (auto simp add: eraseEntries_def)
    from up ne have "\<not> isSpace (hd u)" "\<not> isSpace (last u)"
      using trim_hd [of p] trim_last [of p] by simp_all
    moreover have "\<forall>c \<in> set u. \<not> isSep c"
      using split_on_no_sep [OF p] set_trim [of _ p] up by blast
    ultimately show ?thesis using f ne by simp
  qed
  from a b c d show ?thesis by blast
qed

text \<open>
  The self-test input has four entries and three terms: \<^verbatim>\<open>Foo\<close> is dropped as a
  repetition of \<^verbatim>\<open>foo\<close>.
\<close>

lemma selfTest_entries: "eraseEntries selfTestInput = [''foo'', ''bar'', ''baz'', ''Foo'']"
  by code_simp

lemma selfTest_parse: "parseEraseCSV selfTestInput = [''foo'', ''bar'', ''baz'']"
  by code_simp

lemma selfTest_lower: "toLowerCase ''Foo'' = ''foo''" "toLowerCase ''foo'' = ''foo''"
  by code_simp+

theorem parseEraseCSV_first_occurrences_witness:
  "eraseEntries selfTestInput = [''foo'', ''bar'', ''baz'', ''Foo'']
   \<and> parseEraseCSV selfTestInput = [''foo'', ''bar'', ''baz'']
   \<and> length (parseEraseCSV selfTestInput) = 3
   \<and> toLowerCase ''Foo'' = toLowerCase ''foo''
   \<and> find (\<lambda>t. toLowerCase t = toLowerCase ''foo'') (eraseEntries selfTestInput) = Some ''foo''
   \<and> distinct (map toLowerCase (parseEraseCSV selfTestInput))"
proof -
  note t = parseEraseCSV_first_occurrences [of selfTestInput]
  have m: "''foo'' \<in> set (parseEraseCSV selfTestInput)"
    by (simp add: selfTest_parse)
  from t m have "find (\<lambda>t. toLowerCase t = toLowerCase ''foo'') (eraseEntries selfTestInput) = Some ''foo''"
    by blast
  moreover from t have "distinct (map toLowerCase (parseEraseCSV selfTestInput))" by blast
  ultimately show ?thesis
    by (simp add: selfTest_entries selfTest_parse selfTest_lower)
qed

section \<open>Supersession of renders\<close>












lemma awaitsTask_None:
  "awaitsTask i s = None \<longleftrightarrow> (i < length (frames s) \<longrightarrow> (\<forall>v. f_phase (frames s ! i) \<noteq> AwaitTask v))"
  by (simp add: awaitsTask_def split: phase.split)













end
